theory Spec2Isabelle
  imports Complex_Main
begin

section \<open>Numbers, errors and the mpmath operations used by kint.py\<close>

text \<open>
  The module \<^verbatim>\<open>kint.py\<close> computes with mpmath's \<^verbatim>\<open>mpf\<close> numbers at a working
  precision of \<^verbatim>\<open>mp.dps = 200\<close> decimal digits.  The embedding idealises an \<^verbatim>\<open>mpf\<close> as a
  real number: sums, products and quotients are exact, \<^verbatim>\<open>mp.cos\<close> and \<^verbatim>\<open>mp.sin\<close> are the
  real cosine and sine.  Every exception the Python can raise is a value of \<open>error\<close>, and
  a function that can raise returns \<open>error + 'a\<close>, with \<open>Inl\<close> for the exception.

  The specification's error names correspond to the Python exceptions as follows:
  NotFound is the \<^verbatim>\<open>KeyError\<close> of a dictionary lookup, DegenerateInputs is the
  \<^verbatim>\<open>ZeroDivisionError\<close> of an \<^verbatim>\<open>mpf\<close> division or negative power, and
  InsufficientPrecision is \<^verbatim>\<open>SystemExit\<close> with the message "Insufficient precision".

  \<open>NotReal\<close> is not a Python exception.  It marks the two places where a power leaves the
  real numbers, so that the embedding cannot follow the value: a negative base with a
  fractional exponent, for which mpmath returns a complex \<^verbatim>\<open>mpc\<close>, and zero to a negative
  fractional power that is not a half-integer, for which it returns \<^verbatim>\<open>+inf\<close>.
\<close>

datatype error =
    KeyError
  | IndexError
  | ValueError
  | ZeroDivisionError
  | NameError
  | SystemExit string
  | NotReal

definition bind_err :: "error + 'a \<Rightarrow> ('a \<Rightarrow> error + 'b) \<Rightarrow> error + 'b" where
  "bind_err r f = (case r of Inl e \<Rightarrow> Inl e | Inr v \<Rightarrow> f v)"

text \<open>
  \<^verbatim>\<open>x ** k\<close> for an \<^verbatim>\<open>mpf\<close> base and an integer-valued \<^verbatim>\<open>mpf\<close> exponent (every exponent in
  the table is \<^verbatim>\<open>mp.mpf\<close> of an integer literal, or such a value plus or minus an integer):
  a negative power of zero raises \<^verbatim>\<open>ZeroDivisionError\<close>, and \<^verbatim>\<open>0 ** 0\<close> is 1.
\<close>

definition mp_pow :: "real \<Rightarrow> int \<Rightarrow> error + real" where
  "mp_pow x k =
     (if 0 \<le> k then Inr (x ^ nat k)
      else if x = 0 then Inl ZeroDivisionError
      else Inr (1 / x ^ nat (- k)))"

text \<open>
  \<^verbatim>\<open>x ** y\<close> for an \<^verbatim>\<open>mpf\<close> base and any \<^verbatim>\<open>mpf\<close> exponent, as \<^verbatim>\<open>Term.evaluate\<close> computes
  it: \<^verbatim>\<open>Term.__init__\<close> takes \<^verbatim>\<open>mp.mpf\<close> of whatever powers it is given.  An integer-valued
  exponent is the integer power above.  Otherwise a positive base has the real power
  (mpmath takes \<open>sqrt\<close> for a half-integer and \<open>exp (y log x)\<close> else), zero to a positive
  power is 0, zero to a negative half-integer raises \<^verbatim>\<open>ZeroDivisionError\<close> (one over the
  square root of zero), and the remaining cases leave the real numbers.
\<close>

definition mp_power :: "real \<Rightarrow> real \<Rightarrow> error + real" where
  "mp_power x y =
     (if y \<in> \<int> then mp_pow x \<lfloor>y\<rfloor>
      else if x < 0 then Inl NotReal
      else if x = 0 then
        (if 0 < y then Inr 0
         else if 2 * y \<in> \<int> then Inl ZeroDivisionError
         else Inl NotReal)
      else Inr (x powr y))"

text \<open>\<^verbatim>\<open>x / y\<close> on \<^verbatim>\<open>mpf\<close>: a zero divisor raises \<^verbatim>\<open>ZeroDivisionError\<close>.\<close>

definition mp_div :: "real \<Rightarrow> real \<Rightarrow> error + real" where
  "mp_div x y = (if y = 0 then Inl ZeroDivisionError else Inr (x / y))"

text \<open>\<^verbatim>\<open>mp.dps = 200\<close>, set once at import.\<close>

definition mp_dps :: int where
  "mp_dps = 200"

text \<open>
  The digit accounting of \<^verbatim>\<open>KnlInt.evaluate\<close> can leave the finite numbers:
  \<^verbatim>\<open>mp.log10(0)\<close> is \<^verbatim>\<open>-inf\<close>, \<^verbatim>\<open>mp.floor\<close> keeps an infinity, a difference of two equal
  infinities is \<^verbatim>\<open>nan\<close>, and every comparison with \<^verbatim>\<open>nan\<close> is false.  The values that
  \<^verbatim>\<open>maxdigits\<close>, \<^verbatim>\<open>resdigits\<close>, \<^verbatim>\<open>prec_loss\<close> and \<^verbatim>\<open>prec_remaining\<close> can take are integers,
  the two infinities and \<^verbatim>\<open>nan\<close>.
\<close>

datatype digits = NegInf | Fin int | PosInf | NaN

text \<open>\<^verbatim>\<open>mp.floor(mp.log10(y))\<close> for \<open>y \<ge> 0\<close> (the argument is always an absolute value).\<close>

definition floor_log10 :: "real \<Rightarrow> digits" where
  "floor_log10 y = (if y = 0 then NegInf else Fin \<lfloor>log 10 y\<rfloor>)"

fun digits_sub :: "digits \<Rightarrow> digits \<Rightarrow> digits" where
  "digits_sub NaN _ = NaN"
| "digits_sub _ NaN = NaN"
| "digits_sub (Fin m) (Fin r) = Fin (m - r)"
| "digits_sub (Fin m) NegInf = PosInf"
| "digits_sub (Fin m) PosInf = NegInf"
| "digits_sub NegInf NegInf = NaN"
| "digits_sub NegInf _ = NegInf"
| "digits_sub PosInf PosInf = NaN"
| "digits_sub PosInf _ = PosInf"

fun digits_less :: "digits \<Rightarrow> int \<Rightarrow> bool" where
  "digits_less NaN k = False"
| "digits_less NegInf k = True"
| "digits_less PosInf k = False"
| "digits_less (Fin p) k = (p < k)"

section \<open>Polynomial: the monomial cache\<close>

text \<open>
  An instance of the class \<^verbatim>\<open>Polynomial\<close>.  The dictionary \<^verbatim>\<open>stored\<close> is an association
  list from the requested length to the list of monomials; \<^verbatim>\<open>get_list\<close> is the only
  writer and adds a key only when it is absent.  The field names carry the prefix
  \<open>poly_\<close> because a record field is a global constant.
\<close>

record Polynomial =
  poly_a :: real
  poly_b :: real
  poly_a2 :: real
  poly_b2 :: real
  poly_stored :: "(nat \<times> real list) list"

definition Polynomial_init :: "real \<Rightarrow> real \<Rightarrow> Polynomial" where
  "Polynomial_init a b =
     \<lparr>poly_a = a, poly_b = b, poly_a2 = a * a, poly_b2 = b * b, poly_stored = []\<rparr>"

text \<open>\<^verbatim>\<open>np.cumprod\<close>: the running products of a one-dimensional array.\<close>

fun cumprod_from :: "real \<Rightarrow> real list \<Rightarrow> real list" where
  "cumprod_from acc [] = []"
| "cumprod_from acc (x # xs) = (acc * x) # cumprod_from (acc * x) xs"

fun cumprod :: "real list \<Rightarrow> real list" where
  "cumprod [] = []"
| "cumprod (x # xs) = x # cumprod_from x xs"

text \<open>
  \<^verbatim>\<open>_make_list\<close>.  \<^verbatim>\<open>np.full(n, self.a2)\<close> is \<open>n\<close> copies of \<open>a\<^sup>2\<close>; the assignment
  \<^verbatim>\<open>apoly[0] = mp.mpf(1)\<close> raises \<^verbatim>\<open>IndexError\<close> on an array of length 0;
  \<^verbatim>\<open>np.flipud\<close> reverses, and the product of the two arrays is elementwise.
\<close>

definition make_list :: "Polynomial \<Rightarrow> nat \<Rightarrow> error + real list" where
  "make_list p n =
     (if n = 0 then Inl IndexError
      else
        let apoly = (replicate n (poly_a2 p))[0 := 1];
            apoly = rev (cumprod apoly);
            bpoly = (replicate n (poly_b2 p))[0 := 1];
            bpoly = cumprod bpoly
        in Inr (map2 (*) apoly bpoly))"

text \<open>\<^verbatim>\<open>get_list\<close>: the cached list when the key is present, else compute and store.\<close>

definition get_list :: "Polynomial \<Rightarrow> nat \<Rightarrow> (error + real list) \<times> Polynomial" where
  "get_list p n =
     (case map_of (poly_stored p) n of
        Some ms \<Rightarrow> (Inr ms, p)
      | None \<Rightarrow>
          (case make_list p n of
             Inl e \<Rightarrow> (Inl e, p)
           | Inr ms \<Rightarrow> (Inr ms, p\<lparr>poly_stored := (n, ms) # poly_stored p\<rparr>)))"

text \<open>\<^verbatim>\<open>eval_poly\<close>: \<^verbatim>\<open>np.sum(coeff * self.get_list(len(coeff)))\<close>.\<close>

definition eval_poly :: "Polynomial \<Rightarrow> real list \<Rightarrow> (error + real) \<times> Polynomial" where
  "eval_poly p coeff =
     (case get_list p (length coeff) of
        (Inl e, p') \<Rightarrow> (Inl e, p')
      | (Inr ms, p') \<Rightarrow> (Inr (sum_list (map2 (*) coeff ms)), p'))"

section \<open>Term, Part and KnlInt\<close>

text \<open>
  \<^verbatim>\<open>Term(c, n, m, coeffs)\<close>: the constructor turns every argument into an \<^verbatim>\<open>mpf\<close>, so the
  powers \<open>n\<close> and \<open>m\<close> are any numbers (the table has integers only).  The default
  \<^verbatim>\<open>coeffs=[1]\<close> is written out where the source omits the argument.
\<close>

datatype Term = Term (term_c: real) (term_n: real) (term_m: real) (term_coeffs: "real list")

datatype Part = Part (part_terms: "Term list")

datatype KnlInt = KnlInt_obj (knl_n: int) (knl_l: int) (knl_parts: "Part list")

text \<open>\<^verbatim>\<open>KnlInt.__init__\<close> stores the four parts as the list \<^verbatim>\<open>[csum, cdiff, ssum, sdiff]\<close>.\<close>

definition KnlInt :: "int \<Rightarrow> int \<Rightarrow> Part \<Rightarrow> Part \<Rightarrow> Part \<Rightarrow> Part \<Rightarrow> KnlInt" where
  "KnlInt n l csum cdiff ssum sdiff = KnlInt_obj n l [csum, cdiff, ssum, sdiff]"

text \<open>\<^verbatim>\<open>Term.evaluate\<close>: the power of \<open>a b\<close> is computed only when \<^verbatim>\<open>self.m != 0\<close>.\<close>

definition Term_evaluate :: "Term \<Rightarrow> real \<Rightarrow> Polynomial \<Rightarrow> (error + real) \<times> Polynomial" where
  "Term_evaluate t x poly =
     (case mp_power x (term_n t) of
        Inl e \<Rightarrow> (Inl e, poly)
      | Inr xn \<Rightarrow>
          (case (if term_m t \<noteq> 0 then mp_power (poly_a poly * poly_b poly) (term_m t) else Inr 1) of
             Inl e \<Rightarrow> (Inl e, poly)
           | Inr abm \<Rightarrow>
               (case eval_poly poly (term_coeffs t) of
                  (Inl e, poly') \<Rightarrow> (Inl e, poly')
                | (Inr w, poly') \<Rightarrow> (Inr (term_c t * xn * abm * w), poly'))))"

text \<open>
  The list comprehension \<^verbatim>\<open>[term.evaluate(x, poly) for term in self.terms]\<close>: the terms
  are evaluated in order on the same \<^verbatim>\<open>poly\<close> object, and the first exception ends it.
\<close>

fun Term_evaluate_all :: "Term list \<Rightarrow> real \<Rightarrow> Polynomial \<Rightarrow> (error + real list) \<times> Polynomial" where
  "Term_evaluate_all [] x poly = (Inr [], poly)"
| "Term_evaluate_all (t # ts) x poly =
     (case Term_evaluate t x poly of
        (Inl e, poly') \<Rightarrow> (Inl e, poly')
      | (Inr v, poly') \<Rightarrow>
          (case Term_evaluate_all ts x poly' of
             (Inl e, poly'') \<Rightarrow> (Inl e, poly'')
           | (Inr vs, poly'') \<Rightarrow> (Inr (v # vs), poly'')))"

text \<open>\<^verbatim>\<open>Part.evaluate\<close>: the sum of the evaluated terms (0 for no terms).\<close>

definition Part_evaluate :: "Part \<Rightarrow> real \<Rightarrow> Polynomial \<Rightarrow> (error + real) \<times> Polynomial" where
  "Part_evaluate part x poly =
     (case Term_evaluate_all (part_terms part) x poly of
        (Inl e, poly') \<Rightarrow> (Inl e, poly')
      | (Inr vs, poly') \<Rightarrow> (Inr (sum_list vs), poly'))"

text \<open>The list comprehension over \<^verbatim>\<open>self.parts\<close> in \<^verbatim>\<open>KnlInt.evaluate\<close>.\<close>

fun Part_evaluate_all :: "Part list \<Rightarrow> real \<Rightarrow> Polynomial \<Rightarrow> (error + real list) \<times> Polynomial" where
  "Part_evaluate_all [] x poly = (Inr [], poly)"
| "Part_evaluate_all (q # qs) x poly =
     (case Part_evaluate q x poly of
        (Inl e, poly') \<Rightarrow> (Inl e, poly')
      | (Inr v, poly') \<Rightarrow>
          (case Part_evaluate_all qs x poly' of
             (Inl e, poly'') \<Rightarrow> (Inl e, poly'')
           | (Inr vs, poly'') \<Rightarrow> (Inr (v # vs), poly'')))"

text \<open>
  The precision that remains after the cancellation in \<^verbatim>\<open>sum(termlist)\<close>
  (\<^verbatim>\<open>maxdigits\<close>, \<^verbatim>\<open>resdigits\<close>, \<^verbatim>\<open>prec_loss\<close>, \<^verbatim>\<open>prec_remaining\<close> of \<^verbatim>\<open>KnlInt.evaluate\<close>).
\<close>

definition prec_remaining :: "real list \<Rightarrow> digits" where
  "prec_remaining termlist =
     (let abslist = map abs termlist;
          maxdigits = floor_log10 (sum_list abslist);
          result = sum_list termlist;
          resdigits = floor_log10 \<bar>result\<bar>;
          prec_loss = digits_sub maxdigits resdigits
      in digits_sub (Fin mp_dps) prec_loss)"

text \<open>
  The arithmetic of \<^verbatim>\<open>KnlInt.evaluate\<close> after the four parts are known, in the order of
  the source: the powers and quotients of the four terms, the common factor
  \<^verbatim>\<open>mp.mpf('0.25') / abl\<close>, the precision that remains, the test against 13.  The
  \<^verbatim>\<open>print\<close> of the remaining precision changes nothing and is left out.  The module never
  imports \<^verbatim>\<open>sys\<close>, so reaching \<^verbatim>\<open>sys.exit("Insufficient precision")\<close> raises
  \<^verbatim>\<open>NameError\<close>.
\<close>

definition KnlInt_combine ::
  "KnlInt \<Rightarrow> real \<Rightarrow> Polynomial \<Rightarrow> real \<Rightarrow> real \<Rightarrow> real \<Rightarrow> real \<Rightarrow> error + real" where
  "KnlInt_combine k x poly csum cdiff ssum sdiff =
     bind_err (mp_pow (poly_a poly * poly_b poly) (knl_l k + 1)) (\<lambda>abl.
       let apb = poly_a poly + poly_b poly;
           amb = poly_a poly - poly_b poly
       in
       bind_err (mp_pow apb (knl_n k - 2)) (\<lambda>d1.
       bind_err (mp_div (cos (x * apb) * (csum + cdiff)) d1) (\<lambda>cpterm.
       bind_err (mp_pow amb (knl_n k - 2)) (\<lambda>d2.
       bind_err (mp_div (cos (x * amb) * (csum - cdiff)) d2) (\<lambda>cmterm.
       bind_err (mp_pow apb (knl_n k - 1)) (\<lambda>d3.
       bind_err (mp_div (sin (x * apb) * (ssum + sdiff)) d3) (\<lambda>spterm.
       bind_err (mp_pow amb (knl_n k - 1)) (\<lambda>d4.
       bind_err (mp_div (sin (x * amb) * (ssum - sdiff)) d4) (\<lambda>smterm.
       bind_err (mp_div (1 / 4) abl) (\<lambda>q.
         let termlist = map (\<lambda>t. q * t) [cpterm, cmterm, spterm, smterm];
             result = sum_list termlist
         in if digits_less (prec_remaining termlist) 13 then Inl NameError
            else Inr result))))))))))"

text \<open>
  \<^verbatim>\<open>KnlInt.evaluate\<close>: evaluate the parts, unpack the four values (a list of another
  length would raise \<^verbatim>\<open>ValueError\<close>), then combine.
\<close>

definition KnlInt_evaluate :: "KnlInt \<Rightarrow> real \<Rightarrow> Polynomial \<Rightarrow> (error + real) \<times> Polynomial" where
  "KnlInt_evaluate k x poly =
     (case Part_evaluate_all (knl_parts k) x poly of
        (Inl e, poly') \<Rightarrow> (Inl e, poly')
      | (Inr vals, poly') \<Rightarrow>
          (case vals of
             [csum, cdiff, ssum, sdiff] \<Rightarrow>
               (KnlInt_combine k x poly' csum cdiff ssum sdiff, poly')
           | _ \<Rightarrow> (Inl ValueError, poly')))"

section \<open>The table of integrals\<close>

text \<open>
  The module fills the dictionary \<^verbatim>\<open>integrals\<close> with one \<^verbatim>\<open>KnlInt\<close> for each key
  \<^verbatim>\<open>(n, l)\<close>, \<open>n\<close> in 4, 6 and \<open>l\<close> from 0 to 10.  The coefficients are the literals of
  the source.
\<close>

text \<open>\<^verbatim>\<open>n = 4, l = 0\<close>\<close>

definition integrals_4_0 :: KnlInt where
  "integrals_4_0 = KnlInt 4 0
     (Part [])
     (Part [Term (- 4) 1 0 [1]])
     (Part [Term (- 4) 2 1 [1]])
     (Part [Term 4 0 0 [1],
           Term (- 2) 2 0 [1, 1]])"

text \<open>\<^verbatim>\<open>n = 4, l = 1\<close>\<close>

definition integrals_4_1 :: KnlInt where
  "integrals_4_1 = KnlInt 4 1
     (Part [Term 8 1 1 [1]])
     (Part [Term 2 1 0 [1, 1]])
     (Part [Term (- 12) 0 1 [1],
           Term 2 2 1 [1, 1]])
     (Part [Term 4 2 2 [1],
           Term (- 4) 0 0 [1, 1]])"

text \<open>\<^verbatim>\<open>n = 4, l = 2\<close>\<close>

definition integrals_4_2 :: KnlInt where
  "integrals_4_2 = KnlInt 4 2
     (Part [Term 36 (- 1) 1 [1],
           Term (- 6) 1 1 [1, 1]])
     (Part [Term (- 16) 1 2 [1],
           Term 18 (- 1) 0 [1, 1]])
     (Part [Term (- 4) 2 3 [1],
           Term 36 0 1 [1, 1]])
     (Part [Term (- 2) 2 2 [1, 1],
           Term 2 0 0 [3, 32, 3]])"

text \<open>\<^verbatim>\<open>n = 4, l = 3\<close>\<close>

definition integrals_4_3 :: KnlInt where
  "integrals_4_3 = KnlInt 4 3
     (Part [Term 300 (- 3) 1 [1],
           Term 28 1 3 [1],
           Term (- 210) (- 1) 1 [1, 1]])
     (Part [Term 150 (- 3) 0 [1, 1],
           Term 12 1 2 [1, 1],
           Term (- 30) (- 1) 0 [1, 12, 1]])
     (Part [Term 600 (- 2) 1 [1, 1],
           Term 2 2 3 [1, 1],
           Term (- 2) 0 1 [15, 116, 15]])
     (Part [Term 4 2 4 [1],
           Term (- 144) 0 2 [1, 1],
           Term 150 (- 2) 0 [1, 6, 1]])"

text \<open>\<^verbatim>\<open>n = 4, l = 4\<close>\<close>

definition integrals_4_4 :: KnlInt where
  "integrals_4_4 = KnlInt 4 4
     (Part [Term 8820 (- 5) 1 [1],
           Term (- 7770) (- 3) 1 [1, 1],
           Term (- 20) 1 3 [1, 1],
           Term 30 (- 1) 1 [7, 60, 7]])
     (Part [Term (- 44) 1 4 [1],
           Term 4410 (- 5) 0 [1, 1],
           Term 1110 (- 1) 2 [1, 1],
           Term (- 420) (- 3) 0 [4, 29, 4]])
     (Part [Term (- 4) 2 5 [1],
           Term 17640 (- 4) 1 [1, 1],
           Term 400 0 3 [1, 1],
           Term (- 210) (- 2) 1 [11, 50, 11]])
     (Part [Term (- 2) 2 4 [1, 1],
           Term 4410 (- 4) 0 [1, 6, 1],
           Term (- 210) (- 2) 0 [1, 35, 35, 1],
           Term 6 0 2 [15, 104, 15]])"

text \<open>\<^verbatim>\<open>n = 4, l = 5\<close>\<close>

definition integrals_4_5 :: KnlInt where
  "integrals_4_5 = KnlInt 4 5
     (Part [Term 510300 (- 7) 1 [1],
           Term 64 1 5 [1],
           Term (- 470610) (- 5) 1 [1, 1],
           Term (- 3990) (- 1) 3 [1, 1],
           Term 420 (- 3) 1 [63, 326, 63]])
     (Part [Term 255150 (- 7) 0 [1, 1],
           Term 30 1 4 [1, 1],
           Term (- 420) (- 1) 2 [2, 15, 2],
           Term 210 (- 3) 0 [9, 443, 443, 9],
           Term (- 5670) (- 5) 0 [19, 128, 19]])
     (Part [Term 1020600 (- 6) 1 [1, 1],
           Term 2 2 5 [1, 1],
           Term 210 (- 2) 1 [9, 215, 215, 9],
           Term (- 5670) (- 4) 1 [31, 122, 31],
           Term (- 2) 0 3 [105, 692, 105]])
     (Part [Term 4 2 6 [1],
           Term (- 900) 0 4 [1, 1],
           Term 255150 (- 6) 0 [1, 6, 1],
           Term (- 22680) (- 4) 0 [1, 22, 22, 1],
           Term 420 (- 2) 2 [37, 150, 37]])"

text \<open>\<^verbatim>\<open>n = 4, l = 6\<close>\<close>

definition integrals_4_6 :: KnlInt where
  "integrals_4_6 = KnlInt 4 6
     (Part [Term 48024900 (- 9) 1 [1],
           Term (- 45218250) (- 7) 1 [1, 1],
           Term (- 42) 1 5 [1, 1],
           Term 2520 (- 1) 3 [1, 7, 1],
           Term (- 630) (- 3) 1 [33, 995, 995, 33],
           Term 1890 (- 5) 1 [1749, 7712, 1749]])
     (Part [Term (- 88) 1 6 [1],
           Term 24012450 (- 9) 0 [1, 1],
           Term 11340 (- 1) 4 [1, 1],
           Term (- 623700) (- 7) 0 [17, 111, 17],
           Term (- 1260) (- 3) 2 [159, 710, 159],
           Term 1890 (- 5) 0 [187, 5418, 5418, 187]])
     (Part [Term (- 4) 2 7 [1],
           Term 96049800 (- 8) 1 [1, 1],
           Term 1764 0 5 [1, 1],
           Term (- 6300) (- 2) 3 [11, 42, 11],
           Term 7560 (- 4) 1 [55, 754, 754, 55],
           Term (- 103950) (- 6) 1 [177, 662, 177]])
     (Part [Term (- 2) 2 6 [1, 1],
           Term 24012450 (- 8) 0 [1, 6, 1],
           Term (- 3150) (- 2) 2 [3, 61, 61, 3],
           Term (- 103950) (- 6) 0 [25, 483, 483, 25],
           Term 4 0 4 [105, 673, 105],
           Term 1890 (- 4) 0 [11, 1205, 4040, 1205, 11]])"

text \<open>\<^verbatim>\<open>n = 4, l = 7\<close>\<close>

definition integrals_4_7 :: KnlInt where
  "integrals_4_7 = KnlInt 4 7
     (Part [Term 6640533900 (- 11) 1 [1],
           Term 116 1 7 [1],
           Term (- 6328372050) (- 9) 1 [1, 1],
           Term (- 27468) (- 1) 5 [1, 1],
           Term 3118500 (- 7) 1 [169, 692, 169],
           Term (- 20790) (- 5) 1 [325, 5446, 5446, 325],
           Term 2520 (- 3) 3 [407, 1675, 407]])
     (Part [Term 3320266950 (- 11) 0 [1, 1],
           Term 56 1 6 [1, 1],
           Term (- 252) (- 1) 4 [25, 168, 25],
           Term (- 28378350) (- 9) 0 [53, 340, 53],
           Term 1260 (- 3) 2 [99, 2390, 2390, 99],
           Term 623700 (- 7) 0 [104, 2471, 2471, 104],
           Term (- 20790) (- 5) 0 [13, 2032, 7452, 2032, 13]])
     (Part [Term 13281067800 (- 10) 1 [1, 1],
           Term 2 2 7 [1, 1],
           Term 3150 (- 2) 3 [11, 205, 205, 11],
           Term (- 12) 0 5 [63, 397, 63],
           Term (- 28378350) (- 8) 1 [95, 346, 95],
           Term 20790 (- 6) 1 [4017, 44359, 44359, 4017],
           Term (- 20790) (- 4) 1 [13, 831, 2560, 831, 13]])
     (Part [Term 4 2 8 [1],
           Term (- 3136) 0 6 [1, 1],
           Term 3320266950 (- 10) 0 [1, 6, 1],
           Term (- 56756700) (- 8) 0 [7, 127, 127, 7],
           Term 12600 (- 2) 4 [19, 70, 19],
           Term (- 83160) (- 4) 2 [44, 487, 487, 44],
           Term 20790 (- 6) 0 [299, 18932, 58290, 18932, 299]])"

text \<open>\<^verbatim>\<open>n = 4, l = 8\<close>\<close>

definition integrals_4_8 :: KnlInt where
  "integrals_4_8 = KnlInt 4 8
     (Part [Term 1264255492500 (- 13) 1 [1],
           Term (- 1214451488250) (- 11) 1 [1, 1],
           Term (- 72) 1 7 [1, 1],
           Term 1260 (- 1) 5 [11, 72, 11],
           Term (- 13860) (- 3) 3 [39, 830, 830, 39],
           Term (- 40540500) (- 7) 1 [48, 625, 625, 48],
           Term 28378350 (- 9) 1 [3855, 15124, 3855],
           Term 20790 (- 5) 1 [195, 16224, 53692, 16224, 195]])
     (Part [Term (- 148) 1 8 [1],
           Term 632127746250 (- 13) 0 [1, 1],
           Term 59220 (- 1) 6 [1, 1],
           Term (- 7662154500) (- 11) 0 [38, 241, 38],
           Term (- 27720) (- 3) 4 [147, 575, 147],
           Term 28378350 (- 9) 0 [510, 10907, 10907, 510],
           Term 20790 (- 5) 2 [3107, 40158, 40158, 3107],
           Term (- 8108100) (- 7) 0 [15, 1259, 4182, 1259, 15]])
     (Part [Term (- 4) 2 9 [1],
           Term 2528510985000 (- 12) 1 [1, 1],
           Term 5184 0 7 [1, 1],
           Term (- 138600) (- 2) 5 [5, 18, 5],
           Term (- 1351350) (- 6) 1 [99, 3396, 9410, 3396, 99],
           Term (- 3831077250) (- 10) 1 [139, 498, 139],
           Term 83160 (- 4) 3 [260, 2549, 2549, 260],
           Term 56756700 (- 8) 1 [345, 3409, 3409, 345]])
     (Part [Term (- 2) 2 8 [1, 1],
           Term 632127746250 (- 12) 0 [1, 6, 1],
           Term (- 34650) (- 2) 4 [3, 53, 53, 3],
           Term (- 3831077250) (- 10) 0 [21, 367, 367, 21],
           Term 4 0 6 [315, 1963, 315],
           Term (- 1351350) (- 6) 0 [3, 862, 7335, 7335, 862, 3],
           Term 28378350 (- 8) 0 [60, 3017, 8862, 3017, 60],
           Term 20790 (- 4) 2 [91, 4525, 13240, 4525, 91]])"

text \<open>\<^verbatim>\<open>n = 4, l = 9\<close>\<close>

definition integrals_4_9 :: KnlInt where
  "integrals_4_9 = KnlInt 4 9
     (Part [Term 316653859021500 (- 15) 1 [1],
           Term 184 1 9 [1],
           Term (- 305907687335250) (- 13) 1 [1, 1],
           Term (- 116820) (- 1) 7 [1, 1],
           Term 13860 (- 3) 5 [975, 3686, 975],
           Term (- 270270) (- 5) 3 [1555, 17262, 17262, 1555],
           Term 2554051500 (- 11) 1 [11373, 43390, 11373],
           Term (- 28378350) (- 9) 1 [21998, 249171, 249171, 21998],
           Term 40540500 (- 7) 1 [68, 2903, 8565, 2903, 68]])
     (Part [Term 158326929510750 (- 15) 0 [1, 1],
           Term 90 1 8 [1, 1],
           Term (- 3960) (- 1) 6 [7, 45, 7],
           Term (- 716411445750) (- 13) 0 [103, 648, 103],
           Term 6930 (- 3) 4 [273, 5363, 5363, 273],
           Term 1277025750 (- 11) 0 [3145, 62991, 62991, 3145],
           Term 4054050 (- 7) 0 [17, 6765, 65753, 65753, 6765, 17],
           Term (- 270270) (- 5) 2 [120, 7329, 22736, 7329, 120],
           Term (- 56756700) (- 9) 0 [833, 52514, 164475, 52514, 833]])
     (Part [Term 633307718043000 (- 14) 1 [1, 1],
           Term 2 2 9 [1, 1],
           Term 6930 (- 2) 5 [39, 665, 665, 39],
           Term (- 4) 0 7 [495, 3061, 495],
           Term (- 238803815250) (- 12) 1 [573, 2030, 573],
           Term 255405150 (- 10) 1 [21947, 202709, 202709, 21947],
           Term (- 1891890) (- 4) 3 [5, 215, 608, 215, 5],
           Term 1351350 (- 6) 1 [51, 7586, 55503, 55503, 7586, 51],
           Term (- 4054050) (- 8) 1 [13600, 350695, 913962, 350695, 13600]])
     (Part [Term 4 2 10 [1],
           Term (- 8100) 0 8 [1, 1],
           Term 158326929510750 (- 14) 0 [1, 6, 1],
           Term (- 7567560) (- 4) 4 [13, 118, 118, 13],
           Term (- 955215261000) (- 12) 0 [22, 375, 375, 22],
           Term 13860 (- 2) 6 [127, 450, 127],
           Term (- 8108100) (- 8) 0 [323, 48975, 361340, 361340, 48975, 323],
           Term 510810300 (- 10) 0 [1037, 45881, 130820, 45881, 1037],
           Term 1351350 (- 6) 2 [1062, 27015, 70126, 27015, 1062]])"

text \<open>\<^verbatim>\<open>n = 4, l = 10\<close>\<close>

definition integrals_4_10 :: KnlInt where
  "integrals_4_10 = KnlInt 4 10
     (Part [Term 100863567447142500 (- 17) 1 [1],
           Term (- 97855355786438250) (- 15) 1 [1, 1],
           Term (- 110) 1 9 [1, 1],
           Term 1980 (- 1) 7 [26, 165, 26],
           Term (- 12870) (- 3) 5 [441, 8203, 8203, 441],
           Term (- 21709437750) (- 11) 1 [10811, 112109, 112109, 10811],
           Term 716411445750 (- 13) 1 [13471, 50392, 13471],
           Term (- 4054050) (- 7) 1 [323, 62135, 507299, 507299, 62135, 323],
           Term 270270 (- 5) 3 [680, 34517, 102480, 34517, 680],
           Term 16216200 (- 9) 1 [93347, 2888861, 7948878, 2888861, 93347]])
     (Part [Term (- 224) 1 10 [1],
           Term 50431783723571250 (- 17) 0 [1, 1],
           Term 214830 (- 1) 8 [1, 1],
           Term (- 353907254200500) (- 15) 0 [67, 419, 67],
           Term (- 25740) (- 3) 6 [1519, 5606, 1519],
           Term 716411445750 (- 13) 0 [1919, 36748, 36748, 1919],
           Term 270270 (- 5) 4 [7820, 78617, 78617, 7820],
           Term (- 43418875500) (- 11) 0 [456, 24339, 73330, 24339, 456],
           Term (- 8108100) (- 7) 2 [3910, 118660, 324617, 118660, 3910],
           Term 4054050 (- 9) 0 [15181, 3001979, 24809428, 24809428, 3001979, 15181]])
     (Part [Term (- 4) 2 11 [1],
           Term 201727134894285000 (- 16) 1 [1, 1],
           Term 12100 0 9 [1, 1],
           Term 7567560 (- 4) 5 [49, 422, 422, 49],
           Term (- 25740) (- 2) 7 [157, 550, 157],
           Term (- 176953627100250) (- 14) 1 [251, 882, 251],
           Term 955215261000 (- 12) 1 [2052, 18113, 18113, 2052],
           Term (- 1351350) (- 6) 3 [7718, 164231, 408030, 164231, 7718],
           Term 8108100 (- 8) 1 [8075, 602055, 3737318, 3737318, 602055, 8075],
           Term (- 1240539300) (- 10) 1 [19323, 423039, 1059772, 423039, 19323]])
     (Part [Term (- 2) 2 10 [1, 1],
           Term 50431783723571250 (- 16) 0 [1, 6, 1],
           Term (- 176953627100250) (- 14) 0 [39, 653, 653, 39],
           Term (- 12870) (- 2) 6 [49, 815, 815, 49],
           Term 6 0 8 [495, 3044, 495],
           Term 1891890 (- 4) 4 [20, 783, 2162, 783, 20],
           Term (- 1351350) (- 6) 2 [459, 49179, 326326, 326326, 49179, 459],
           Term 238803815250 (- 12) 0 [817, 33313, 93060, 33313, 817],
           Term (- 620269650) (- 10) 0 [2242, 250543, 1691711, 1691711, 250543, 2242],
           Term 4054050 (- 8) 0 [323, 208318, 3842665, 9287180, 3842665, 208318, 323]])"

text \<open>\<^verbatim>\<open>n = 6, l = 0\<close>\<close>

definition integrals_6_0 :: KnlInt where
  "integrals_6_0 = KnlInt 6 0
     (Part [Term (- 16) 3 1 [1]])
     (Part [Term 48 1 0 [1],
           Term (- 8) 3 0 [1, 1]])
     (Part [Term 48 2 1 [1],
           Term (- 8) 4 1 [1, 1]])
     (Part [Term (- 48) 0 0 [1],
           Term 24 2 0 [1, 1],
           Term (- 2) 4 0 [1, 6, 1]])"

text \<open>\<^verbatim>\<open>n = 6, l = 1\<close>\<close>

definition integrals_6_1 :: KnlInt where
  "integrals_6_1 = KnlInt 6 1
     (Part [Term (- 80) 1 1 [1],
           Term 16 3 1 [1, 1]])
     (Part [Term (- 16) 1 0 [1, 1],
           Term 2 3 0 [1, 14, 1]])
     (Part [Term 80 0 1 [1],
           Term (- 56) 2 1 [1, 1],
           Term 2 4 1 [1, 6, 1]])
     (Part [Term 16 0 0 [1, 1],
           Term 8 4 2 [1, 1],
           Term (- 8) 2 0 [1, 12, 1]])"

text \<open>\<^verbatim>\<open>n = 6, l = 2\<close>\<close>

definition integrals_6_2 :: KnlInt where
  "integrals_6_2 = KnlInt 6 2
     (Part [Term 168 1 1 [1, 1],
           Term (- 2) 3 1 [3, 26, 3]])
     (Part [Term (- 32) 3 2 [1, 1],
           Term 6 1 0 [5, 54, 5]])
     (Part [Term (- 240) 0 1 [1, 1],
           Term (- 8) 4 3 [1, 1],
           Term 12 2 1 [5, 26, 5]])
     (Part [Term (- 2) 4 2 [1, 6, 1],
           Term (- 48) 0 0 [1, 9, 1],
           Term 6 2 0 [1, 35, 35, 1]])"

text \<open>\<^verbatim>\<open>n = 6, l = 3\<close>\<close>

definition integrals_6_3 :: KnlInt where
  "integrals_6_3 = KnlInt 6 3
     (Part [Term 1800 (- 1) 1 [1, 1],
           Term 56 3 3 [1, 1],
           Term (- 30) 1 1 [11, 58, 11]])
     (Part [Term 450 (- 1) 0 [1, 6, 1],
           Term 4 3 2 [3, 22, 3],
           Term (- 6) 1 0 [5, 191, 191, 5]])
     (Part [Term 2 4 3 [1, 6, 1],
           Term (- 6) 2 1 [5, 111, 111, 5],
           Term 60 0 1 [25, 98, 25]])
     (Part [Term 8 4 4 [1, 1],
           Term (- 12) 2 2 [19, 78, 19],
           Term 6 0 0 [35, 701, 701, 35]])"

text \<open>\<^verbatim>\<open>n = 6, l = 4\<close>\<close>

definition integrals_6_4 :: KnlInt where
  "integrals_6_4 = KnlInt 6 4
     (Part [Term 29400 (- 3) 1 [1, 1],
           Term 70 1 1 [3, 73, 73, 3],
           Term (- 4) 3 3 [5, 34, 5],
           Term (- 1050) (- 1) 1 [15, 58, 15]])
     (Part [Term (- 88) 3 4 [1, 1],
           Term 7350 (- 3) 0 [1, 6, 1],
           Term (- 2100) (- 1) 0 [1, 21, 21, 1],
           Term 2 1 2 [855, 3634, 855]])
     (Part [Term (- 8) 4 5 [1, 1],
           Term 14700 (- 2) 1 [3, 10, 3],
           Term (- 50) 0 1 [63, 737, 737, 63],
           Term 4 2 3 [155, 582, 155]])
     (Part [Term (- 2) 4 4 [1, 6, 1],
           Term 7350 (- 2) 0 [1, 15, 15, 1],
           Term 2 2 2 [45, 847, 847, 45],
           Term (- 2) 0 0 [105, 7710, 24394, 7710, 105]])"

text \<open>\<^verbatim>\<open>n = 6, l = 5\<close>\<close>

definition integrals_6_5 :: KnlInt where
  "integrals_6_5 = KnlInt 6 5
     (Part [Term 1428840 (- 5) 1 [1, 1],
           Term 128 3 5 [1, 1],
           Term 1260 (- 1) 1 [27, 349, 349, 27],
           Term (- 13230) (- 3) 1 [71, 250, 71],
           Term (- 6) 1 3 [1015, 3938, 1015]])
     (Part [Term 357210 (- 5) 0 [1, 6, 1],
           Term (- 120) 1 2 [7, 142, 142, 7],
           Term (- 13230) (- 3) 0 [11, 185, 185, 11],
           Term 2 3 4 [15, 98, 15],
           Term 630 (- 1) 0 [3, 284, 930, 284, 3]])
     (Part [Term 714420 (- 4) 1 [3, 10, 3],
           Term 2 4 5 [1, 6, 1],
           Term (- 42) 2 3 [5, 87, 87, 5],
           Term (- 13230) (- 2) 1 [21, 187, 187, 21],
           Term 6 0 1 [315, 14980, 43418, 14980, 315]])
     (Part [Term 8 4 6 [1, 1],
           Term 357210 (- 4) 0 [1, 15, 15, 1],
           Term (- 276) 2 4 [5, 18, 5],
           Term 3000 0 2 [7, 67, 67, 7],
           Term (- 26460) (- 2) 0 [1, 43, 120, 43, 1]])"

text \<open>\<^verbatim>\<open>n = 6, l = 6\<close>\<close>

definition integrals_6_6 :: KnlInt where
  "integrals_6_6 = KnlInt 6 6
     (Part [Term 123492600 (- 7) 1 [1, 1],
           Term 168 1 3 [15, 277, 277, 15],
           Term (- 2) 3 5 [21, 134, 21],
           Term (- 561330) (- 5) 1 [151, 522, 151],
           Term 1890 (- 3) 1 [2519, 25109, 25109, 2519],
           Term (- 1890) (- 1) 1 [11, 628, 1890, 628, 11]])
     (Part [Term (- 176) 3 6 [1, 1],
           Term 30873150 (- 7) 0 [1, 6, 1],
           Term (- 2245320) (- 5) 0 [6, 97, 97, 6],
           Term (- 11340) (- 1) 2 [23, 241, 241, 23],
           Term 60 1 4 [287, 1062, 287],
           Term 1890 (- 3) 0 [209, 11109, 32620, 11109, 209]])
     (Part [Term (- 8) 4 7 [1, 1],
           Term 61746300 (- 6) 1 [3, 10, 3],
           Term 48 2 5 [56, 197, 56],
           Term (- 187110) (- 4) 1 [157, 1267, 1267, 157],
           Term (- 168) 0 3 [555, 4807, 4807, 555],
           Term 3780 (- 2) 1 [132, 3341, 8526, 3341, 132]])
     (Part [Term (- 2) 4 6 [1, 6, 1],
           Term 30873150 (- 6) 0 [1, 15, 15, 1],
           Term 12 2 4 [35, 583, 583, 35],
           Term 1890 (- 2) 0 [11, 1902, 13559, 13559, 1902, 11],
           Term (- 187110) (- 4) 0 [17, 602, 1610, 602, 17],
           Term (- 30) 0 2 [315, 12460, 34506, 12460, 315]])"

text \<open>\<^verbatim>\<open>n = 6, l = 7\<close>\<close>

definition integrals_6_7 :: KnlInt where
  "integrals_6_7 = KnlInt 6 7
     (Part [Term 16232416200 (- 9) 1 [1, 1],
           Term 232 3 7 [1, 1],
           Term (- 44594550) (- 7) 1 [255, 874, 255],
           Term 1260 (- 1) 3 [1067, 9969, 9969, 1067],
           Term 166320 (- 5) 1 [4667, 41660, 41660, 4667],
           Term (- 4) 1 5 [10395, 37406, 10395],
           Term (- 6930) (- 3) 1 [1131, 33919, 90468, 33919, 1131]])
     (Part [Term 4058104050 (- 9) 0 [1, 6, 1],
           Term 8 3 6 [7, 44, 7],
           Term (- 44594550) (- 7) 0 [41, 651, 651, 41],
           Term (- 28) 1 4 [225, 3931, 3931, 225],
           Term (- 6930) (- 3) 0 [39, 9069, 71176, 71176, 9069, 39],
           Term 1260 (- 1) 2 [99, 4497, 12880, 4497, 99],
           Term 41580 (- 5) 0 [1807, 76435, 214132, 76435, 1807]])
     (Part [Term 8116208100 (- 8) 1 [3, 10, 3],
           Term 2 4 7 [1, 6, 1],
           Term (- 4) 2 5 [189, 3065, 3065, 189],
           Term (- 14864850) (- 6) 1 [283, 2197, 2197, 283],
           Term (- 6930) (- 2) 1 [39, 3946, 24927, 24927, 3946, 39],
           Term 20790 (- 4) 1 [5239, 101496, 243810, 101496, 5239],
           Term 2 0 3 [17325, 620424, 1672366, 620424, 17325]])
     (Part [Term 8 4 8 [1, 1],
           Term 4058104050 (- 8) 0 [1, 15, 15, 1],
           Term (- 8) 2 6 [595, 2064, 595],
           Term 140 0 4 [2295, 18761, 18761, 2295],
           Term (- 29729700) (- 6) 0 [16, 529, 1390, 529, 16],
           Term (- 13860) (- 2) 2 [321, 6393, 15484, 6393, 321],
           Term 20790 (- 4) 0 [325, 31671, 196644, 196644, 31671, 325]])"

text \<open>\<^verbatim>\<open>n = 6, l = 8\<close>\<close>

definition integrals_6_8 :: KnlInt where
  "integrals_6_8 = KnlInt 6 8
     (Part [Term 2988240255000 (- 11) 1 [1, 1],
           Term (- 8) 3 7 [9, 56, 9],
           Term (- 5533778250) (- 9) 1 [383, 1306, 383],
           Term 36 1 5 [385, 6491, 6491, 385],
           Term 12162150 (- 7) 1 [13215, 111469, 111469, 13215],
           Term (- 41580) (- 1) 3 [13, 519, 1440, 519, 13],
           Term 62370 (- 3) 1 [65, 8203, 56168, 56168, 8203, 65],
           Term (- 1621620) (- 5) 1 [1495, 33659, 84308, 33659, 1495]])
     (Part [Term (- 296) 3 8 [1, 1],
           Term 747060063750 (- 11) 0 [1, 6, 1],
           Term (- 11067556500) (- 9) 0 [31, 487, 487, 31],
           Term (- 41580) (- 1) 4 [129, 1123, 1123, 129],
           Term 60 1 6 [1491, 5270, 1491],
           Term (- 6486480) (- 5) 0 [20, 2479, 16828, 16828, 2479, 20],
           Term 12162150 (- 7) 0 [1370, 52121, 142386, 52121, 1370],
           Term 20790 (- 3) 2 [3679, 83999, 211260, 83999, 3679]])
     (Part [Term (- 8) 4 9 [1, 1],
           Term 1494120127500 (- 10) 1 [3, 10, 3],
           Term (- 5533778250) (- 8) 1 [147, 1117, 1117, 147],
           Term 24 2 7 [327, 1124, 327],
           Term (- 36) 0 5 [25795, 203261, 203261, 25795],
           Term 291060 (- 2) 3 [91, 1583, 3708, 1583, 91],
           Term (- 810810) (- 4) 1 [185, 9707, 52092, 52092, 9707, 185],
           Term 8108100 (- 6) 1 [3230, 54919, 127750, 54919, 3230]])
     (Part [Term (- 2) 4 8 [1, 6, 1],
           Term 747060063750 (- 10) 0 [1, 15, 15, 1],
           Term 84 2 6 [15, 239, 239, 15],
           Term 145530 (- 2) 2 [13, 1026, 6017, 6017, 1026, 13],
           Term (- 5533778250) (- 8) 0 [17, 542, 1410, 542, 17],
           Term 4054050 (- 6) 0 [470, 35923, 207655, 207655, 35923, 470],
           Term (- 30) 0 4 [3465, 116760, 309286, 116760, 3465],
           Term (- 810810) (- 4) 0 [5, 1937, 28227, 63630, 28227, 1937, 5]])"

text \<open>\<^verbatim>\<open>n = 6, l = 9\<close>\<close>

definition integrals_6_9 :: KnlInt where
  "integrals_6_9 = KnlInt 6 9
     (Part [Term 730739674665000 (- 13) 1 [1, 1],
           Term 368 3 9 [1, 1],
           Term 41580 (- 1) 5 [429, 3563, 3563, 429],
           Term (- 976924698750) (- 11) 1 [535, 1818, 535],
           Term (- 12) 1 7 [14685, 51274, 14685],
           Term 851350500 (- 9) 1 [49759, 405409, 405409, 49759],
           Term 3243240 (- 5) 1 [935, 59405, 344101, 344101, 59405, 935],
           Term (- 270270) (- 3) 3 [1865, 36289, 87780, 36289, 1865],
           Term (- 60810750) (- 7) 1 [13158, 254303, 613806, 254303, 13158]])
     (Part [Term 182684918666250 (- 13) 0 [1, 6, 1],
           Term (- 2520) 1 6 [11, 181, 181, 11],
           Term 2 3 8 [45, 278, 45],
           Term (- 976924698750) (- 11) 0 [87, 1357, 1357, 87],
           Term (- 810810) (- 3) 2 [40, 3753, 23555, 23555, 3753, 40],
           Term 20790 (- 1) 4 [91, 3348, 9090, 3348, 91],
           Term (- 121621500) (- 7) 0 [425, 39561, 247196, 247196, 39561, 425],
           Term 425675250 (- 9) 0 [10727, 383712, 1031794, 383712, 10727],
           Term 810810 (- 5) 0 [85, 43930, 725636, 1696226, 725636, 43930, 85]])
     (Part [Term 365369837332500 (- 12) 1 [3, 10, 3],
           Term 2 4 9 [1, 6, 1],
           Term (- 12) 2 7 [165, 2597, 2597, 165],
           Term (- 325641566250) (- 10) 1 [631, 4729, 4729, 631],
           Term (- 1891890) (- 2) 3 [5, 342, 1909, 1909, 342, 5],
           Term (- 20270250) (- 6) 1 [3230, 125051, 611383, 611383, 125051, 3230],
           Term 425675250 (- 8) 1 [17697, 279340, 637158, 279340, 17697],
           Term 6 0 5 [45045, 1457940, 3816038, 1457940, 45045],
           Term 810810 (- 4) 1 [85, 17395, 214701, 464310, 214701, 17395, 85]])
     (Part [Term 8 4 10 [1, 1],
           Term 182684918666250 (- 12) 0 [1, 15, 15, 1],
           Term (- 48) 2 8 [255, 871, 255],
           Term 1800 0 6 [1309, 10061, 10061, 1309],
           Term (- 3783780) (- 2) 4 [32, 511, 1170, 511, 32],
           Term (- 651283132500) (- 10) 0 [37, 1153, 2980, 1153, 37],
           Term 851350500 (- 8) 0 [697, 46965, 260146, 260146, 46965, 697],
           Term 810810 (- 4) 2 [2020, 78421, 383895, 383895, 78421, 2020],
           Term (- 40540500) (- 6) 0 [68, 13886, 171043, 369670, 171043, 13886, 68]])"

text \<open>\<^verbatim>\<open>n = 6, l = 10\<close>\<close>

definition integrals_6_10 :: KnlInt where
  "integrals_6_10 = KnlInt 6 10
     (Part [Term 228624086213523000 (- 15) 1 [1, 1],
           Term (- 2) 3 9 [55, 338, 55],
           Term 440 1 7 [117, 1892, 1892, 117],
           Term (- 231400896977250) (- 13) 1 [711, 2410, 711],
           Term 151966064250 (- 11) 1 [91903, 731341, 731341, 91903],
           Term (- 12870) (- 1) 5 [441, 15348, 41030, 15348, 441],
           Term 90090 (- 3) 3 [2040, 160491, 949025, 949025, 160491, 2040],
           Term 8108100 (- 7) 1 [216087, 9860255, 51638802, 51638802, 9860255, 216087],
           Term (- 482431950) (- 9) 1 [630515, 11102120, 26156106, 11102120, 630515],
           Term (- 270270) (- 5) 1 [4845, 1243210, 17052484, 38054674, 17052484, 1243210, 4845]])
     (Part [Term (- 448) 3 10 [1, 1],
           Term 57156021553380750 (- 15) 0 [1, 6, 1],
           Term (- 925603587909000) (- 13) 0 [29, 450, 450, 29],
           Term (- 25740) (- 1) 6 [2009, 16143, 16143, 2009],
           Term 2 1 8 [161865, 560254, 161865],
           Term (- 964863900) (- 9) 0 [22534, 1787775, 10595035, 10595035, 1787775, 22534],
           Term 90090 (- 3) 4 [28380, 497591, 1171170, 497591, 28380],
           Term (- 1081080) (- 5) 2 [32895, 1493435, 7805639, 7805639, 1493435, 32895],
           Term 21709437750 (- 11) 0 [71117, 2442851, 6497480, 2442851, 71117],
           Term 4054050 (- 7) 0 [15827, 4095912, 56365545, 125906008, 56365545, 4095912, 15827]])
     (Part [Term (- 8) 4 11 [1, 1],
           Term 114312043106761500 (- 14) 1 [3, 10, 3],
           Term (- 77133632325750) (- 12) 1 [853, 6331, 6331, 853],
           Term (- 2200) 0 7 [2457, 18553, 18553, 2457],
           Term 4 2 9 [4565, 15522, 4565],
           Term 1261260 (- 2) 5 [363, 5469, 12320, 5469, 363],
           Term (- 270270) (- 4) 3 [44540, 1445229, 6646695, 6646695, 1445229, 44540],
           Term (- 137837700) (- 8) 1 [211983, 6922955, 31917318, 31917318, 6922955, 211983],
           Term 8683775100 (- 10) 1 [302860, 4556895, 10257402, 4556895, 302860],
           Term 2702700 (- 6) 1 [26163, 2653768, 26982649, 55545304, 26982649, 2653768, 26163]])
     (Part [Term (- 2) 4 10 [1, 6, 1],
           Term 57156021553380750 (- 14) 0 [1, 15, 15, 1],
           Term 2 2 8 [1485, 23167, 23167, 1485],
           Term 630630 (- 2) 4 [60, 3743, 20181, 20181, 3743, 60],
           Term (- 77133632325750) (- 12) 0 [101, 3098, 7970, 3098, 101],
           Term 4341887550 (- 10) 0 [50027, 3121140, 16805745, 16805745, 3121140, 50027],
           Term (- 2) 0 6 [315315, 9921780, 25747834, 9921780, 315315],
           Term 1351350 (- 6) 0 [969, 769029, 21161479, 92938987, 92938987, 21161479, 769029, 969],
           Term (- 270270) (- 4) 2 [2295, 342890, 3799599, 7983360, 3799599, 342890, 2295],
           Term (- 68918850) (- 8) 0 [21698, 3276813, 36459210, 76693582, 36459210, 3276813, 21698]])"

text \<open>The dictionary \<^verbatim>\<open>integrals\<close>, in the order in which the module fills it; the keys are distinct.\<close>

definition integrals_items :: "((int \<times> int) \<times> KnlInt) list" where
  "integrals_items =
     [((4, 0), integrals_4_0),
      ((4, 1), integrals_4_1),
      ((4, 2), integrals_4_2),
      ((4, 3), integrals_4_3),
      ((4, 4), integrals_4_4),
      ((4, 5), integrals_4_5),
      ((4, 6), integrals_4_6),
      ((4, 7), integrals_4_7),
      ((4, 8), integrals_4_8),
      ((4, 9), integrals_4_9),
      ((4, 10), integrals_4_10),
      ((6, 0), integrals_6_0),
      ((6, 1), integrals_6_1),
      ((6, 2), integrals_6_2),
      ((6, 3), integrals_6_3),
      ((6, 4), integrals_6_4),
      ((6, 5), integrals_6_5),
      ((6, 6), integrals_6_6),
      ((6, 7), integrals_6_7),
      ((6, 8), integrals_6_8),
      ((6, 9), integrals_6_9),
      ((6, 10), integrals_6_10)]"

definition integrals :: "int \<times> int \<Rightarrow> KnlInt option" where
  "integrals = map_of integrals_items"

section \<open>Compare: the definite integral\<close>

text \<open>
  The analytic half of \<^verbatim>\<open>Compare(x1, x2, n, l, a, b)\<close>: one \<^verbatim>\<open>Polynomial\<close> for
  \<open>(a, b)\<close>, the table entry evaluated at \<open>x1\<close> and then at \<open>x2\<close> on that same object,
  and the difference \<^verbatim>\<open>an1 = result2 - result1\<close>.  A key that is not in the dictionary
  raises \<^verbatim>\<open>KeyError\<close>.  The timing, the quadrature and the printing that follow in the
  source do not change \<^verbatim>\<open>an1\<close> and are left out.
\<close>

definition Compare :: "real \<Rightarrow> real \<Rightarrow> int \<Rightarrow> int \<Rightarrow> real \<Rightarrow> real \<Rightarrow> error + real" where
  "Compare x1 x2 n l a b =
     (let poly = Polynomial_init a b in
      case integrals (n, l) of
        None \<Rightarrow> Inl KeyError
      | Some k1 \<Rightarrow>
          (case KnlInt_evaluate k1 x1 poly of
             (Inl e, poly') \<Rightarrow> Inl e
           | (Inr result1, poly') \<Rightarrow>
               (case integrals (n, l) of
                  None \<Rightarrow> Inl KeyError
                | Some k2 \<Rightarrow>
                    (case KnlInt_evaluate k2 x2 poly' of
                       (Inl e, poly'') \<Rightarrow> Inl e
                     | (Inr result2, poly'') \<Rightarrow> Inr (result2 - result1)))))"

section \<open>The invariant of the monomial cache\<close>

text \<open>
  What holds of every \<^verbatim>\<open>Polynomial\<close> object the module can build: the squares are those
  of \<open>a\<close> and \<open>b\<close>, and every list in \<^verbatim>\<open>stored\<close> is the one \<^verbatim>\<open>_make_list\<close> computes for
  its key.  The constructor establishes it and \<^verbatim>\<open>get_list\<close>, the only writer, keeps it.
\<close>

definition cache_ok :: "Polynomial \<Rightarrow> bool" where
  "cache_ok p \<longleftrightarrow>
     poly_a2 p = poly_a p * poly_a p \<and> poly_b2 p = poly_b p * poly_b p \<and>
     list_all (\<lambda>(n, ms). make_list p n = Inr ms) (poly_stored p)"

text \<open>
  What every entry of the table satisfies and the evaluation relies on: four parts, and in
  every term a non-empty coefficient list, integer powers and a non-negative power of
  \<open>a b\<close>.
\<close>

definition Term_ok :: "Term \<Rightarrow> bool" where
  "Term_ok t \<longleftrightarrow>
     term_coeffs t \<noteq> [] \<and> term_n t \<in> \<int> \<and> term_m t \<in> \<int> \<and> 0 \<le> term_m t"

definition KnlInt_ok :: "KnlInt \<Rightarrow> bool" where
  "KnlInt_ok k \<longleftrightarrow>
     length (knl_parts k) = 4 \<and>
     list_all (\<lambda>q. list_all Term_ok (part_terms q)) (knl_parts k)"

section \<open>Properties\<close>


lemma cumprod_from_replicate:
  "cumprod_from acc (replicate k v) = map (\<lambda>i. acc * v ^ Suc i) [0..<k]"
proof (induction k arbitrary: acc)
  case 0
  then show ?case by simp
next
  case (Suc k)
  have "map (\<lambda>i. acc * v ^ Suc i) [0..<Suc k] = (acc * v) # map (\<lambda>i. acc * v * v ^ Suc i) [0..<k]"
    by (simp add: upt_conv_Cons map_Suc_upt [symmetric] del: upt_Suc) 
  then show ?case using Suc.IH [of "acc * v"] by (simp del: upt_Suc)
qed

lemma cumprod_full:
  assumes "0 < n"
  shows "cumprod ((replicate n v)[0 := 1]) = map (\<lambda>i. v ^ i) [0..<n]"
proof -
  obtain k where n: "n = Suc k" using assms by (cases n) auto
  have "cumprod ((replicate n v)[0 := 1]) = 1 # cumprod_from 1 (replicate k v)"
    by (simp add: n)
  also have "\<dots> = 1 # map (\<lambda>i. v ^ Suc i) [0..<k]"
    by (simp add: cumprod_from_replicate)
  also have "\<dots> = map (\<lambda>i. v ^ i) [0..<Suc k]"
    by (simp add: upt_conv_Cons map_Suc_upt [symmetric] del: upt_Suc)
  finally show ?thesis by (simp add: n)
qed

lemma make_list_eq:
  assumes "0 < n"
  shows "make_list p n = Inr (map (\<lambda>k. poly_a2 p ^ (n - 1 - k) * poly_b2 p ^ k) [0..<n])"
proof -
  have len: "length (rev (map (\<lambda>i. poly_a2 p ^ i) [0..<n])) = n" by simp
  have "map2 (*) (rev (map (\<lambda>i. poly_a2 p ^ i) [0..<n])) (map (\<lambda>i. poly_b2 p ^ i) [0..<n])
        = map (\<lambda>k. poly_a2 p ^ (n - 1 - k) * poly_b2 p ^ k) [0..<n]"
    by (rule nth_equalityI) (simp_all add: rev_nth)
  then show ?thesis
    using assms by (simp add: make_list_def cumprod_full Let_def)
qed

lemma cache_ok_init: "cache_ok (Polynomial_init a b)"
  by (simp add: cache_ok_def Polynomial_init_def)

lemma cache_ok_lookup:
  assumes "cache_ok p" "map_of (poly_stored p) n = Some ms"
  shows "make_list p n = Inr ms"
proof -
  have "(n, ms) \<in> set (poly_stored p)" using assms(2) by (rule map_of_SomeD)
  moreover have "\<forall>e \<in> set (poly_stored p). case e of (n, ms) \<Rightarrow> make_list p n = Inr ms"
    using assms(1) by (simp add: cache_ok_def list_all_iff)
  ultimately show ?thesis by blast
qed

lemma make_list_stored [simp]: "make_list (p\<lparr>poly_stored := s\<rparr>) n = make_list p n"
  by (simp add: make_list_def)

lemma get_list_fst: "cache_ok p \<Longrightarrow> fst (get_list p n) = make_list p n"
  by (auto simp: get_list_def cache_ok_lookup split: option.splits sum.splits)

lemma get_list_snd:
  assumes "cache_ok p"
  shows "cache_ok (snd (get_list p n)) \<and> poly_a (snd (get_list p n)) = poly_a p \<and>
         poly_b (snd (get_list p n)) = poly_b p"
  using assms by (auto simp: get_list_def cache_ok_def split: option.splits sum.splits)

lemma eval_poly_fst:
  "cache_ok p \<Longrightarrow>
   fst (eval_poly p coeff) =
     (case make_list p (length coeff) of
        Inl e \<Rightarrow> Inl e
      | Inr ms \<Rightarrow> Inr (sum_list (map2 (*) coeff ms)))"
  using get_list_fst [of p "length coeff"]
  by (auto simp: eval_poly_def split: prod.splits sum.splits)

lemma eval_poly_snd:
  assumes "cache_ok p"
  shows "cache_ok (snd (eval_poly p coeff)) \<and> poly_a (snd (eval_poly p coeff)) = poly_a p \<and>
         poly_b (snd (eval_poly p coeff)) = poly_b p"
  using get_list_snd [OF assms, of "length coeff"]
  by (auto simp: eval_poly_def split: prod.splits sum.splits)

lemma power2_mult_self: "(x * x) ^ k = (x::real) ^ (2 * k)"
  by (simp add: power_mult power2_eq_square)

text \<open>
  Claim C4.  For every context \<open>(a, b)\<close> and every \<open>n \<ge> 1\<close>, the list of monomials that
  \<^verbatim>\<open>get_list\<close> returns for \<open>n\<close> has exactly \<open>n\<close> entries, entry \<open>k\<close> is
  \<open>a\<^sup>2\<^sup>(\<^sup>n\<^sup>-\<^sup>1\<^sup>-\<^sup>k\<^sup>) b\<^sup>2\<^sup>k\<close>, the first entry is \<open>a\<^sup>2\<^sup>(\<^sup>n\<^sup>-\<^sup>1\<^sup>)\<close>, the last is \<open>b\<^sup>2\<^sup>(\<^sup>n\<^sup>-\<^sup>1\<^sup>)\<close>, and for
  \<open>n = 1\<close> the list is \<open>[1]\<close>; whether the list comes from the cache or is computed.
\<close>

theorem get_list_monomials:
  assumes "cache_ok p" and "1 \<le> n"
  shows "case fst (get_list p n) of
           Inl e \<Rightarrow> False
         | Inr m \<Rightarrow>
             length m = n \<and>
             (\<forall>k<n. m ! k = poly_a p ^ (2 * (n - 1 - k)) * poly_b p ^ (2 * k)) \<and>
             m ! 0 = poly_a p ^ (2 * (n - 1)) \<and>
             m ! (n - 1) = poly_b p ^ (2 * (n - 1)) \<and>
             (n = 1 \<longrightarrow> m = [1])"
proof -
  have n: "0 < n" using assms(2) by simp
  have sq: "poly_a2 p = poly_a p * poly_a p" "poly_b2 p = poly_b p * poly_b p"
    using assms(1) by (simp_all add: cache_ok_def)
  let ?m = "map (\<lambda>k. poly_a2 p ^ (n - 1 - k) * poly_b2 p ^ k) [0..<n]"
  have fst: "fst (get_list p n) = Inr ?m"
    using assms(1) n by (simp add: get_list_fst make_list_eq)
  have nth: "?m ! k = poly_a p ^ (2 * (n - 1 - k)) * poly_b p ^ (2 * k)" if "k < n" for k
    using that by (simp add: sq power2_mult_self)
  have "?m ! 0 = poly_a p ^ (2 * (n - 1))"
    using nth [of 0] n by simp
  moreover have "?m ! (n - 1) = poly_b p ^ (2 * (n - 1))"
    using nth [of "n - 1"] n by simp
  moreover have "n = 1 \<longrightarrow> ?m = [1]" by simp
  moreover have "length ?m = n" by simp
  ultimately show ?thesis
    using nth by (simp only: fst sum.case) blast
qed

theorem get_list_monomials_witness:
  "cache_ok (Polynomial_init 2 3) \<and> (1::nat) \<le> 3 \<and>
   (case fst (get_list (Polynomial_init 2 3) 3) of
      Inl e \<Rightarrow> False
    | Inr m \<Rightarrow> length m = 3 \<and> m ! 0 = 16 \<and> m ! 1 = 36 \<and> m ! 2 = 81)"
proof -
  have ok: "cache_ok (Polynomial_init 2 3)" by (rule cache_ok_init)
  have le: "(1::nat) \<le> 3" by simp
  have ab: "poly_a (Polynomial_init 2 3) = 2" "poly_b (Polynomial_init 2 3) = 3"
    by (simp_all add: Polynomial_init_def)
  obtain m where m: "fst (get_list (Polynomial_init 2 3) 3) = Inr m" "length m = 3"
    and nth: "\<And>k. k < 3 \<Longrightarrow> m ! k = 2 ^ (2 * (3 - 1 - k)) * 3 ^ (2 * k)"
    using get_list_monomials [OF ok le] unfolding ab by (auto split: sum.splits)
  have "m ! 0 = 16" "m ! 1 = 36" "m ! 2 = 81"
    using nth [of 0] nth [of 1] nth [of 2] by simp_all
  with ok le m show ?thesis by simp
qed

subsection \<open>Weighted polynomials and terms\<close>

lemma sum_list_map2_nth:
  "length xs = length ys \<Longrightarrow>
   sum_list (map2 (*) xs ys) = (\<Sum>k<length xs. xs ! k * (ys ! k :: real))"
proof (induction xs ys rule: list_induct2)
  case Nil
  then show ?case by simp
next
  case (Cons x xs y ys)
  have "(\<Sum>k<Suc (length xs). (x # xs) ! k * (y # ys) ! k)
        = x * y + (\<Sum>k<length xs. xs ! k * ys ! k)"
    by (simp add: sum.lessThan_Suc_shift del: sum.lessThan_Suc)
  then show ?case using Cons.IH by simp
qed

text \<open>
  Claim C8, as amended.  For every context \<open>(a, b)\<close> and every non-empty coefficient list,
  \<^verbatim>\<open>eval_poly\<close> returns the sum over \<open>k\<close> of \<open>coeffs[k] m[k]\<close>, where \<open>m\<close> is the monomial
  list of degree \<open>len(coeffs)\<close>, that is \<open>m[k] = a\<^sup>2\<^sup>(\<^sup>n\<^sup>-\<^sup>1\<^sup>-\<^sup>k\<^sup>) b\<^sup>2\<^sup>k\<close> with \<open>n = len(coeffs)\<close>.
  An empty list is outside the domain: \<^verbatim>\<open>_make_list(0)\<close> raises \<^verbatim>\<open>IndexError\<close>.
\<close>

theorem eval_poly_weighted_sum:
  assumes "cache_ok p" and "coeffs \<noteq> []"
  shows "fst (eval_poly p coeffs) =
           Inr (\<Sum>k<length coeffs.
                  coeffs ! k *
                  (poly_a p ^ (2 * (length coeffs - 1 - k)) * poly_b p ^ (2 * k)))"
proof -
  let ?n = "length coeffs"
  let ?m = "map (\<lambda>k. poly_a2 p ^ (?n - 1 - k) * poly_b2 p ^ k) [0..<?n]"
  have n: "0 < ?n" using assms(2) by simp
  have sq: "poly_a2 p = poly_a p * poly_a p" "poly_b2 p = poly_b p * poly_b p"
    using assms(1) by (simp_all add: cache_ok_def)
  have "fst (eval_poly p coeffs) = Inr (sum_list (map2 (*) coeffs ?m))"
    using assms(1) n by (simp add: eval_poly_fst make_list_eq)
  also have "sum_list (map2 (*) coeffs ?m) = (\<Sum>k<?n. coeffs ! k * ?m ! k)"
    by (rule sum_list_map2_nth) simp
  also have "\<dots> = (\<Sum>k<?n. coeffs ! k *
                  (poly_a p ^ (2 * (?n - 1 - k)) * poly_b p ^ (2 * k)))"
    by (rule sum.cong) (simp_all add: sq power2_mult_self)
  finally show ?thesis .
qed

theorem eval_poly_weighted_sum_witness:
  "cache_ok (Polynomial_init 2 3) \<and> [1, 6, 1] \<noteq> ([] :: real list) \<and>
   fst (eval_poly (Polynomial_init 2 3) [1, 6, 1]) = Inr 313"
proof -
  have ok: "cache_ok (Polynomial_init 2 3)" by (rule cache_ok_init)
  have ne: "[1, 6, 1] \<noteq> ([] :: real list)" by simp
  have ab: "poly_a (Polynomial_init 2 3) = 2" "poly_b (Polynomial_init 2 3) = 3"
    by (simp_all add: Polynomial_init_def)
  have "fst (eval_poly (Polynomial_init 2 3) [1, 6, 1]) = Inr 313"
    using eval_poly_weighted_sum [OF ok ne] unfolding ab
    by (simp add: lessThan_Suc numeral_3_eq_3)
  with ok ne show ?thesis by simp
qed

theorem eval_poly_empty_counterexample:
  "fst (eval_poly (Polynomial_init 2 3) []) = Inl IndexError"
  by (simp add: eval_poly_def get_list_def make_list_def Polynomial_init_def)

lemma mp_pow_power_int:
  "0 \<le> k \<or> x \<noteq> 0 \<Longrightarrow> mp_pow x k = Inr (power_int x k)"
  by (auto simp: mp_pow_def power_int_def field_simps)

lemma mp_power_Ints: "y \<in> \<int> \<Longrightarrow> mp_power x y = mp_pow x \<lfloor>y\<rfloor>"
  by (simp add: mp_power_def)

lemma mp_power_positive:
  assumes "0 < x"
  shows "mp_power x y = Inr (x powr y)"
proof (cases "y \<in> \<int>")
  case True
  then have y: "y = of_int \<lfloor>y\<rfloor>" by (auto elim: Ints_cases)
  have "mp_power x y = Inr (power_int x \<lfloor>y\<rfloor>)"
    using True assms by (simp add: mp_power_Ints mp_pow_power_int)
  also have "power_int x \<lfloor>y\<rfloor> = x powr of_int \<lfloor>y\<rfloor>"
    using assms by (simp add: powr_real_of_int')
  finally show ?thesis using y by simp
next
  case False
  then show ?thesis using assms by (simp add: mp_power_def)
qed

lemma mp_power_ab:
  assumes "m \<in> \<int> \<or> 0 \<le> c" and "0 \<le> m \<or> c \<noteq> 0"
  shows "(if m \<noteq> 0 then mp_power c m else Inr 1) =
         Inr (if m \<in> \<int> then power_int c \<lfloor>m\<rfloor> else c powr m)"
proof (cases "m \<in> \<int>")
  case True
  have "0 \<le> \<lfloor>m\<rfloor> \<or> c \<noteq> 0" using assms(2) by auto
  then have "mp_power c m = Inr (power_int c \<lfloor>m\<rfloor>)"
    using True by (simp add: mp_power_Ints mp_pow_power_int)
  then show ?thesis using True by auto
next
  case False
  then have m0: "m \<noteq> 0" by auto
  have c: "0 \<le> c" using assms(1) False by simp
  show ?thesis
  proof (cases "c = 0")
    case True
    then have "0 < m" using assms(2) m0 by auto
    then show ?thesis using True False by (simp add: mp_power_def)
  next
    case nz: False
    then have "0 < c" using c by simp
    then show ?thesis using False m0 by (simp add: mp_power_positive)
  qed
qed

text \<open>
  Claim C9.  For every Term \<open>(c, n, m, coeffs)\<close>, with powers \<open>n\<close> and \<open>m\<close> that are any real
  numbers, every context \<open>(a, b)\<close> and every \<open>x > 0\<close>, \<^verbatim>\<open>Term.evaluate\<close> returns
  \<open>c x\<^sup>n (a b)\<^sup>m w\<close>, where \<open>w\<close> is what \<^verbatim>\<open>eval_poly\<close> returns for \<open>coeffs\<close> (and raises what
  \<^verbatim>\<open>eval_poly\<close> raises); for a non-empty \<open>coeffs\<close> of length \<open>d\<close> that is the sum of
  \<open>coeffs[k] a\<^sup>2\<^sup>(\<^sup>d\<^sup>-\<^sup>1\<^sup>-\<^sup>k\<^sup>) b\<^sup>2\<^sup>k\<close>.  When \<open>m = 0\<close> the factor \<open>(a b)\<^sup>m\<close> is the constant 1 and no power
  is computed.  The power \<open>(a b)\<^sup>m\<close> is a real number: \<open>m\<close> is an integer or \<open>a b\<close> is not
  negative, and \<open>m\<close> is not negative, as in the data model, or \<open>a b\<close> is not zero.
\<close>

theorem Term_evaluate_value:
  assumes "cache_ok p" and "0 < x"
    and "term_m t \<in> \<int> \<or> 0 \<le> poly_a p * poly_b p"
    and "0 \<le> term_m t \<or> poly_a p * poly_b p \<noteq> 0"
  shows "fst (Term_evaluate t x p) =
           (case fst (eval_poly p (term_coeffs t)) of
              Inl e \<Rightarrow> Inl e
            | Inr w \<Rightarrow>
                Inr (term_c t * x powr term_n t *
                     (if term_m t \<in> \<int> then power_int (poly_a p * poly_b p) \<lfloor>term_m t\<rfloor>
                      else (poly_a p * poly_b p) powr term_m t) * w))
         \<and> (term_coeffs t \<noteq> [] \<longrightarrow>
              fst (Term_evaluate t x p) =
                Inr (term_c t * x powr term_n t *
                     (if term_m t \<in> \<int> then power_int (poly_a p * poly_b p) \<lfloor>term_m t\<rfloor>
                      else (poly_a p * poly_b p) powr term_m t) *
                     (\<Sum>k<length (term_coeffs t).
                        term_coeffs t ! k *
                        (poly_a p ^ (2 * (length (term_coeffs t) - 1 - k)) * poly_b p ^ (2 * k)))))
         \<and> (term_m t = 0 \<longrightarrow>
              fst (Term_evaluate t x p) =
                (case fst (eval_poly p (term_coeffs t)) of
                   Inl e \<Rightarrow> Inl e
                 | Inr w \<Rightarrow> Inr (term_c t * x powr term_n t * 1 * w)))"
proof -
  let ?ab = "poly_a p * poly_b p"
  let ?pw = "if term_m t \<in> \<int> then power_int ?ab \<lfloor>term_m t\<rfloor> else ?ab powr term_m t"
  have xn: "mp_power x (term_n t) = Inr (x powr term_n t)"
    using assms(2) by (rule mp_power_positive)
  have abm: "(if term_m t \<noteq> 0 then mp_power ?ab (term_m t) else Inr 1) = Inr ?pw"
    using assms(3,4) by (rule mp_power_ab)
  have general: "fst (Term_evaluate t x p) =
           (case fst (eval_poly p (term_coeffs t)) of
              Inl e \<Rightarrow> Inl e
            | Inr w \<Rightarrow> Inr (term_c t * x powr term_n t * ?pw * w))"
    unfolding Term_evaluate_def xn abm
    by (simp split: prod.splits sum.splits)
  have explicit: "fst (Term_evaluate t x p) =
           Inr (term_c t * x powr term_n t * ?pw *
                (\<Sum>k<length (term_coeffs t).
                   term_coeffs t ! k *
                   (poly_a p ^ (2 * (length (term_coeffs t) - 1 - k)) * poly_b p ^ (2 * k))))"
    if ne: "term_coeffs t \<noteq> []"
  proof -
    let ?c = "term_coeffs t"
    let ?m = "map (\<lambda>k. poly_a2 p ^ (length ?c - 1 - k) * poly_b2 p ^ k) [0..<length ?c]"
    have sq: "poly_a2 p = poly_a p * poly_a p" "poly_b2 p = poly_b p * poly_b p"
      using assms(1) by (simp_all add: cache_ok_def)
    have "fst (eval_poly p ?c) = Inr (sum_list (map2 (*) ?c ?m))"
      using assms(1) ne by (simp add: eval_poly_fst make_list_eq)
    also have "sum_list (map2 (*) ?c ?m) = (\<Sum>k<length ?c. ?c ! k * ?m ! k)"
      by (rule sum_list_map2_nth) simp
    also have "\<dots> = (\<Sum>k<length ?c. ?c ! k *
                    (poly_a p ^ (2 * (length ?c - 1 - k)) * poly_b p ^ (2 * k)))"
      by (rule sum.cong) (simp_all add: sq power2_mult_self)
    finally show ?thesis unfolding general by simp
  qed
  have zero: "fst (Term_evaluate t x p) =
           (case fst (eval_poly p (term_coeffs t)) of
              Inl e \<Rightarrow> Inl e
            | Inr w \<Rightarrow> Inr (term_c t * x powr term_n t * 1 * w))"
    if "term_m t = 0"
    unfolding Term_evaluate_def xn using that
    by (simp split: prod.splits sum.splits)
  from general explicit zero show ?thesis by blast
qed

theorem Term_evaluate_value_witness:
  "cache_ok (Polynomial_init 2 3) \<and> (0::real) < 4 \<and>
   (term_m (Term 18 (1 / 2) 0 [1, 1]) \<in> \<int> \<or>
    0 \<le> poly_a (Polynomial_init 2 3) * poly_b (Polynomial_init 2 3)) \<and>
   (0 \<le> term_m (Term 18 (1 / 2) 0 [1, 1]) \<or>
    poly_a (Polynomial_init 2 3) * poly_b (Polynomial_init 2 3) \<noteq> 0) \<and>
   term_coeffs (Term 18 (1 / 2) 0 [1, 1]) \<noteq> [] \<and>
   term_m (Term 18 (1 / 2) 0 [1, 1]) = 0 \<and>
   fst (Term_evaluate (Term 18 (1 / 2) 0 [1, 1]) 4 (Polynomial_init 2 3)) = Inr 468"
proof -
  let ?t = "Term 18 (1 / 2) 0 [1, 1]"
  let ?p = "Polynomial_init 2 3"
  have ok: "cache_ok ?p" by (rule cache_ok_init)
  have x: "(0::real) < 4" by simp
  have m1: "term_m ?t \<in> \<int> \<or> 0 \<le> poly_a ?p * poly_b ?p" by simp
  have m2: "0 \<le> term_m ?t \<or> poly_a ?p * poly_b ?p \<noteq> 0" by simp
  have ne: "term_coeffs ?t \<noteq> []" by simp
  have m0: "term_m ?t = 0" by simp
  have root: "(4::real) powr (1 / 2) = 2"
  proof -
    have "(4::real) powr (1 / 2) = sqrt 4" by (simp add: powr_half_sqrt)
    then show ?thesis by simp
  qed
  have w: "fst (eval_poly ?p [1, 1]) = Inr 13"
    using eval_poly_fst [OF cache_ok_init, of 2 3 "[1, 1]"]
    by (simp add: make_list_eq Polynomial_init_def upt_rec numeral_nat)
  have "fst (Term_evaluate ?t 4 ?p) = Inr 468"
    using Term_evaluate_value [OF ok x m1 m2] m0 by (simp add: w root)
  with ok x m1 m2 ne m0 show ?thesis by blast
qed

subsection \<open>The table\<close>

lemma integrals_keys:
  "map fst integrals_items =
     [(4, 0), (4, 1), (4, 2), (4, 3), (4, 4), (4, 5), (4, 6), (4, 7), (4, 8), (4, 9), (4, 10),
      (6, 0), (6, 1), (6, 2), (6, 3), (6, 4), (6, 5), (6, 6), (6, 7), (6, 8), (6, 9), (6, 10)]"
  by (simp add: integrals_items_def)

lemma integrals_dom: "dom integrals = {4, 6} \<times> {0..10}"
proof -
  have "{0..10::int} = {0, 1, 2, 3, 4, 5, 6, 7, 8, 9, 10}"
  proof (rule set_eqI)
    fix x :: int
    show "x \<in> {0..10} \<longleftrightarrow> x \<in> {0, 1, 2, 3, 4, 5, 6, 7, 8, 9, 10}"
      by (simp only: atLeastAtMost_iff insert_iff empty_iff) arith
  qed
  then have "{4, 6} \<times> {0..10::int} = set (map fst integrals_items)"
    unfolding integrals_keys by auto
  then show ?thesis by (simp add: integrals_def dom_map_of_conv_image_fst)
qed

text \<open>
  Claim C6, as amended.  For \<open>n\<close> in 4, 6 and \<open>0 \<le> l \<le> 10\<close> the lookup of \<open>(n, l)\<close> in the
  table succeeds.  The table has no entry for \<open>n = 2\<close>: that integral is the separate closed
  form \<^verbatim>\<open>K2Int\<close>, which does not go through the table.
\<close>

theorem integrals_lookup_succeeds:
  assumes "n = 4 \<or> n = 6" and "0 \<le> l" and "l \<le> 10"
  shows "\<exists>k. integrals (n, l) = Some k"
proof -
  have "(n, l) \<in> dom integrals" using assms by (simp add: integrals_dom)
  then show ?thesis by blast
qed

theorem integrals_lookup_succeeds_witness:
  "((6::int) = 4 \<or> (6::int) = 6) \<and> (0::int) \<le> 10 \<and> (10::int) \<le> 10 \<and>
   integrals (6, 10) = Some integrals_6_10"
proof -
  have "\<exists>k. integrals (6, 10) = Some k"
    by (rule integrals_lookup_succeeds) simp_all
  then show ?thesis by (auto simp: integrals_def integrals_items_def)
qed

theorem integrals_lookup_2_counterexample: "integrals (2, 0) = None"
proof -
  have "(2, 0) \<notin> dom integrals" by (simp add: integrals_dom)
  then show ?thesis by blast
qed

text \<open>
  Claim C7.  For every \<open>(n, l)\<close> with no entry in the table, for example \<open>n = 8\<close>, \<open>l = 0\<close>,
  requesting the definite integral raises the lookup error (\<^verbatim>\<open>KeyError\<close>, the
  specification's NotFound).
\<close>

theorem Compare_missing_key:
  assumes "integrals (n, l) = None"
  shows "Compare x1 x2 n l a b = Inl KeyError"
  using assms by (simp add: Compare_def)

theorem Compare_missing_key_witness:
  "integrals (8, 0) = None \<and> Compare 1 2 8 0 1 2 = Inl KeyError"
proof -
  have "(8, 0) \<notin> dom integrals" by (simp add: integrals_dom)
  then have none: "integrals (8, 0) = None" by blast
  from none Compare_missing_key [OF none, of 1 2 1 2] show ?thesis by simp
qed

subsection \<open>The result does not depend on the contents of the cache\<close>

lemma make_list_cong:
  "poly_a2 p = poly_a2 q \<Longrightarrow> poly_b2 p = poly_b2 q \<Longrightarrow> make_list p n = make_list q n"
  by (simp add: make_list_def)

lemma eval_poly_indep:
  assumes "cache_ok p" "cache_ok q" "poly_a p = poly_a q" "poly_b p = poly_b q"
  shows "fst (eval_poly p coeff) = fst (eval_poly q coeff)"
proof -
  have "make_list p (length coeff) = make_list q (length coeff)"
    using assms by (intro make_list_cong) (simp_all add: cache_ok_def)
  then show ?thesis using assms(1,2) by (simp add: eval_poly_fst)
qed

lemma Term_evaluate_fst:
  "fst (Term_evaluate t x p) =
     bind_err (mp_power x (term_n t)) (\<lambda>xn.
     bind_err (if term_m t \<noteq> 0 then mp_power (poly_a p * poly_b p) (term_m t) else Inr 1) (\<lambda>abm.
     bind_err (fst (eval_poly p (term_coeffs t))) (\<lambda>w.
       Inr (term_c t * xn * abm * w))))"
  by (simp add: Term_evaluate_def bind_err_def split: prod.splits sum.splits)

lemma Term_evaluate_snd:
  assumes "cache_ok p"
  shows "cache_ok (snd (Term_evaluate t x p)) \<and> poly_a (snd (Term_evaluate t x p)) = poly_a p \<and>
         poly_b (snd (Term_evaluate t x p)) = poly_b p"
  using assms eval_poly_snd [OF assms, of "term_coeffs t"]
  by (auto simp: Term_evaluate_def split: prod.splits sum.splits)

lemma Term_evaluate_indep:
  assumes "cache_ok p" "cache_ok q" "poly_a p = poly_a q" "poly_b p = poly_b q"
  shows "fst (Term_evaluate t x p) = fst (Term_evaluate t x q)"
  using eval_poly_indep [OF assms, of "term_coeffs t"] assms(3,4)
  by (simp add: Term_evaluate_fst)

lemma Term_evaluate_all_snd:
  "cache_ok p \<Longrightarrow>
   cache_ok (snd (Term_evaluate_all ts x p)) \<and>
   poly_a (snd (Term_evaluate_all ts x p)) = poly_a p \<and>
   poly_b (snd (Term_evaluate_all ts x p)) = poly_b p"
proof (induction ts arbitrary: p)
  case Nil
  then show ?case by simp
next
  case (Cons t ts)
  obtain r p' where tp: "Term_evaluate t x p = (r, p')" by (cases "Term_evaluate t x p")
  have p': "cache_ok p'" "poly_a p' = poly_a p" "poly_b p' = poly_b p"
    using Term_evaluate_snd [OF Cons.prems, of t x] by (simp_all add: tp)
  show ?case
    using Cons.IH [OF p'(1)] p' Cons.prems
    by (auto simp: tp split: prod.splits sum.splits)
qed

lemma Term_evaluate_all_indep:
  "cache_ok p \<Longrightarrow> cache_ok q \<Longrightarrow> poly_a p = poly_a q \<Longrightarrow> poly_b p = poly_b q \<Longrightarrow>
   fst (Term_evaluate_all ts x p) = fst (Term_evaluate_all ts x q)"
proof (induction ts arbitrary: p q)
  case Nil
  then show ?case by simp
next
  case (Cons t ts)
  obtain r p' where tp: "Term_evaluate t x p = (r, p')" by (cases "Term_evaluate t x p")
  obtain r' q' where tq: "Term_evaluate t x q = (r', q')" by (cases "Term_evaluate t x q")
  have rr: "r = r'"
    using Term_evaluate_indep [OF Cons.prems, of t x] by (simp add: tp tq)
  have p': "cache_ok p'" "poly_a p' = poly_a p" "poly_b p' = poly_b p"
    using Term_evaluate_snd [OF Cons.prems(1), of t x] by (simp_all add: tp)
  have q': "cache_ok q'" "poly_a q' = poly_a q" "poly_b q' = poly_b q"
    using Term_evaluate_snd [OF Cons.prems(2), of t x] by (simp_all add: tq)
  have "fst (Term_evaluate_all ts x p') = fst (Term_evaluate_all ts x q')"
    using p' q' Cons.prems(3,4) by (intro Cons.IH) simp_all
  then show ?case
    by (auto simp: tp tq rr split: prod.splits sum.splits)
qed

lemma Part_evaluate_snd:
  assumes "cache_ok p"
  shows "cache_ok (snd (Part_evaluate part x p)) \<and>
         poly_a (snd (Part_evaluate part x p)) = poly_a p \<and>
         poly_b (snd (Part_evaluate part x p)) = poly_b p"
  using Term_evaluate_all_snd [OF assms, of "part_terms part" x]
  by (auto simp: Part_evaluate_def split: prod.splits sum.splits)

lemma Part_evaluate_indep:
  assumes "cache_ok p" "cache_ok q" "poly_a p = poly_a q" "poly_b p = poly_b q"
  shows "fst (Part_evaluate part x p) = fst (Part_evaluate part x q)"
  using Term_evaluate_all_indep [OF assms, of "part_terms part" x]
  by (auto simp: Part_evaluate_def split: prod.splits sum.splits)

lemma Part_evaluate_all_snd:
  "cache_ok p \<Longrightarrow>
   cache_ok (snd (Part_evaluate_all qs x p)) \<and>
   poly_a (snd (Part_evaluate_all qs x p)) = poly_a p \<and>
   poly_b (snd (Part_evaluate_all qs x p)) = poly_b p"
proof (induction qs arbitrary: p)
  case Nil
  then show ?case by simp
next
  case (Cons u us)
  obtain r p' where tp: "Part_evaluate u x p = (r, p')" by (cases "Part_evaluate u x p")
  have p': "cache_ok p'" "poly_a p' = poly_a p" "poly_b p' = poly_b p"
    using Part_evaluate_snd [OF Cons.prems, of u x] by (simp_all add: tp)
  show ?case
    using Cons.IH [OF p'(1)] p' Cons.prems
    by (auto simp: tp split: prod.splits sum.splits)
qed

lemma Part_evaluate_all_indep:
  "cache_ok p \<Longrightarrow> cache_ok q \<Longrightarrow> poly_a p = poly_a q \<Longrightarrow> poly_b p = poly_b q \<Longrightarrow>
   fst (Part_evaluate_all qs x p) = fst (Part_evaluate_all qs x q)"
proof (induction qs arbitrary: p q)
  case Nil
  then show ?case by simp
next
  case (Cons u us)
  obtain r p' where tp: "Part_evaluate u x p = (r, p')" by (cases "Part_evaluate u x p")
  obtain r' q' where tq: "Part_evaluate u x q = (r', q')" by (cases "Part_evaluate u x q")
  have rr: "r = r'"
    using Part_evaluate_indep [OF Cons.prems, of u x] by (simp add: tp tq)
  have p': "cache_ok p'" "poly_a p' = poly_a p" "poly_b p' = poly_b p"
    using Part_evaluate_snd [OF Cons.prems(1), of u x] by (simp_all add: tp)
  have q': "cache_ok q'" "poly_a q' = poly_a q" "poly_b q' = poly_b q"
    using Part_evaluate_snd [OF Cons.prems(2), of u x] by (simp_all add: tq)
  have "fst (Part_evaluate_all us x p') = fst (Part_evaluate_all us x q')"
    using p' q' Cons.prems(3,4) by (intro Cons.IH) simp_all
  then show ?case
    by (auto simp: tp tq rr split: prod.splits sum.splits)
qed

lemma KnlInt_combine_cong:
  "poly_a p = poly_a q \<Longrightarrow> poly_b p = poly_b q \<Longrightarrow>
   KnlInt_combine k x p cs cd ss sd = KnlInt_combine k x q cs cd ss sd"
  by (simp add: KnlInt_combine_def)

lemma KnlInt_evaluate_fst:
  "fst (KnlInt_evaluate k x p) =
     (case fst (Part_evaluate_all (knl_parts k) x p) of
        Inl e \<Rightarrow> Inl e
      | Inr vals \<Rightarrow>
          (case vals of
             [csum, cdiff, ssum, sdiff] \<Rightarrow>
               KnlInt_combine k x (snd (Part_evaluate_all (knl_parts k) x p)) csum cdiff ssum sdiff
           | _ \<Rightarrow> Inl ValueError))"
  by (simp add: KnlInt_evaluate_def split: prod.splits sum.splits list.splits)

lemma KnlInt_evaluate_snd:
  assumes "cache_ok p"
  shows "cache_ok (snd (KnlInt_evaluate k x p)) \<and>
         poly_a (snd (KnlInt_evaluate k x p)) = poly_a p \<and>
         poly_b (snd (KnlInt_evaluate k x p)) = poly_b p"
  using Part_evaluate_all_snd [OF assms, of "knl_parts k" x]
  by (auto simp: KnlInt_evaluate_def split: prod.splits sum.splits list.splits)

lemma KnlInt_evaluate_indep:
  assumes "cache_ok p" "cache_ok q" "poly_a p = poly_a q" "poly_b p = poly_b q"
  shows "fst (KnlInt_evaluate k x p) = fst (KnlInt_evaluate k x q)"
proof -
  let ?p' = "snd (Part_evaluate_all (knl_parts k) x p)"
  let ?q' = "snd (Part_evaluate_all (knl_parts k) x q)"
  have vals: "fst (Part_evaluate_all (knl_parts k) x p) = fst (Part_evaluate_all (knl_parts k) x q)"
    using assms by (rule Part_evaluate_all_indep)
  have "poly_a ?p' = poly_a ?q'" "poly_b ?p' = poly_b ?q'"
    using Part_evaluate_all_snd [OF assms(1), of "knl_parts k" x]
      Part_evaluate_all_snd [OF assms(2), of "knl_parts k" x] assms(3,4) by simp_all
  then have "KnlInt_combine k x ?p' cs cd ss sd = KnlInt_combine k x ?q' cs cd ss sd"
    for cs cd ss sd by (rule KnlInt_combine_cong)
  then show ?thesis
    by (simp add: KnlInt_evaluate_fst vals split: sum.splits list.splits)
qed

text \<open>
  Claim C10.  \<^verbatim>\<open>KnlInt.evaluate\<close> is a function of \<open>x\<close>, \<open>a\<close>, \<open>b\<close> and the expression: two
  runs on contexts for the same \<open>(a, b)\<close> return the same result whatever lists their caches
  already hold, and a run leaves a context on which this holds again.  The working
  precision is the constant \<open>mp_dps\<close>; the definite integral \<open>Compare\<close> is a function of its
  arguments.
\<close>

theorem KnlInt_evaluate_deterministic:
  assumes "cache_ok p" and "cache_ok q"
    and "poly_a p = poly_a q" and "poly_b p = poly_b q"
  shows "fst (KnlInt_evaluate k x p) = fst (KnlInt_evaluate k x q) \<and>
         cache_ok (snd (KnlInt_evaluate k x p)) \<and>
         poly_a (snd (KnlInt_evaluate k x p)) = poly_a p \<and>
         poly_b (snd (KnlInt_evaluate k x p)) = poly_b p"
  using KnlInt_evaluate_indep [OF assms] KnlInt_evaluate_snd [OF assms(1)] by simp

theorem KnlInt_evaluate_deterministic_witness:
  "cache_ok (Polynomial_init 2 1) \<and>
   cache_ok (snd (get_list (Polynomial_init 2 1) 2)) \<and>
   poly_stored (snd (get_list (Polynomial_init 2 1) 2)) = [(2, [4, 1])] \<and>
   poly_a (Polynomial_init 2 1) = poly_a (snd (get_list (Polynomial_init 2 1) 2)) \<and>
   poly_b (Polynomial_init 2 1) = poly_b (snd (get_list (Polynomial_init 2 1) 2)) \<and>
   fst (KnlInt_evaluate integrals_4_0 1 (Polynomial_init 2 1)) =
   fst (KnlInt_evaluate integrals_4_0 1 (snd (get_list (Polynomial_init 2 1) 2)))"
proof -
  let ?p = "Polynomial_init 2 1"
  let ?q = "snd (get_list (Polynomial_init 2 1) 2)"
  have p: "cache_ok ?p" by (rule cache_ok_init)
  have q: "cache_ok ?q" "poly_a ?p = poly_a ?q" "poly_b ?p = poly_b ?q"
    using get_list_snd [OF p, of 2] by simp_all
  have st: "poly_stored ?q = [(2, [4, 1])]"
    by (simp add: get_list_def make_list_def Polynomial_init_def numeral_2_eq_2)
  from KnlInt_evaluate_deterministic [OF p q, of integrals_4_0 1] p q st
  show ?thesis by simp
qed

subsection \<open>Entries of the table\<close>

lemmas integrals_entry_defs =
  integrals_4_0_def integrals_4_1_def integrals_4_2_def integrals_4_3_def integrals_4_4_def
  integrals_4_5_def integrals_4_6_def integrals_4_7_def integrals_4_8_def integrals_4_9_def
  integrals_4_10_def
  integrals_6_0_def integrals_6_1_def integrals_6_2_def integrals_6_3_def integrals_6_4_def
  integrals_6_5_def integrals_6_6_def integrals_6_7_def integrals_6_8_def integrals_6_9_def
  integrals_6_10_def

lemma integrals_items_ok:
  "list_all (\<lambda>(key, k). KnlInt_ok k \<and> knl_n k = fst key \<and> knl_l k = snd key) integrals_items"
  unfolding integrals_items_def
  by (simp add: integrals_entry_defs KnlInt_def KnlInt_ok_def Term_ok_def)

lemma integrals_entry:
  assumes "integrals (n, l) = Some k"
  shows "KnlInt_ok k" "knl_n k = n" "knl_l k = l" "n = 4 \<or> n = 6" "0 \<le> l" "l \<le> 10"
proof -
  have "((n, l), k) \<in> set integrals_items"
    using assms unfolding integrals_def by (rule map_of_SomeD)
  then have "KnlInt_ok k \<and> knl_n k = n \<and> knl_l k = l"
    using integrals_items_ok by (auto simp: list_all_iff)
  then show "KnlInt_ok k" "knl_n k = n" "knl_l k = l" by simp_all
  have "(n, l) \<in> dom integrals" using assms by blast
  then show "n = 4 \<or> n = 6" "0 \<le> l" "l \<le> 10" by (simp_all add: integrals_dom)
qed

lemma Term_evaluate_ok:
  assumes "cache_ok p" "Term_ok t"
  shows "fst (Term_evaluate t x p) = Inl ZeroDivisionError \<or> (\<exists>v. fst (Term_evaluate t x p) = Inr v)"
    and "0 < x \<Longrightarrow> \<exists>v. fst (Term_evaluate t x p) = Inr v"
proof -
  have ne: "0 < length (term_coeffs t)" and m: "0 \<le> term_m t"
    and ints: "term_n t \<in> \<int>" "term_m t \<in> \<int>"
    using assms(2) by (simp_all add: Term_ok_def)
  have w: "\<exists>w. fst (eval_poly p (term_coeffs t)) = Inr w"
    using assms(1) ne by (simp add: eval_poly_fst make_list_eq)
  have abm: "\<exists>v. (if term_m t \<noteq> 0 then mp_power (poly_a p * poly_b p) (term_m t) else Inr 1) = Inr v"
    using m ints(2) by (simp add: mp_power_Ints mp_pow_def)
  have xn: "mp_power x (term_n t) = Inl ZeroDivisionError \<or> (\<exists>v. mp_power x (term_n t) = Inr v)"
    using ints(1) by (simp add: mp_power_Ints mp_pow_def)
  show "fst (Term_evaluate t x p) = Inl ZeroDivisionError \<or> (\<exists>v. fst (Term_evaluate t x p) = Inr v)"
    using w abm xn unfolding Term_evaluate_fst by (auto simp: bind_err_def)
  show "\<exists>v. fst (Term_evaluate t x p) = Inr v" if "0 < x"
  proof -
    have "\<exists>v. mp_power x (term_n t) = Inr v" using that by (simp add: mp_power_positive)
    then show ?thesis
      using w abm unfolding Term_evaluate_fst by (auto simp: bind_err_def)
  qed
qed

lemma Term_evaluate_all_ok:
  "cache_ok p \<Longrightarrow> list_all Term_ok ts \<Longrightarrow>
   (fst (Term_evaluate_all ts x p) = Inl ZeroDivisionError \<or>
    (\<exists>vs. fst (Term_evaluate_all ts x p) = Inr vs)) \<and>
   (0 < x \<longrightarrow> (\<exists>vs. fst (Term_evaluate_all ts x p) = Inr vs))"
proof (induction ts arbitrary: p)
  case Nil
  then show ?case by simp
next
  case (Cons t ts)
  obtain r p' where tp: "Term_evaluate t x p = (r, p')" by (cases "Term_evaluate t x p")
  have p': "cache_ok p'"
    using Term_evaluate_snd [OF Cons.prems(1), of t x] by (simp add: tp)
  have t: "Term_ok t" and ts: "list_all Term_ok ts" using Cons.prems(2) by simp_all
  have r: "r = Inl ZeroDivisionError \<or> (\<exists>v. r = Inr v)" "0 < x \<Longrightarrow> \<exists>v. r = Inr v"
    using Term_evaluate_ok [OF Cons.prems(1) t, of x] by (simp_all add: tp)
  show ?case
    using Cons.IH [OF p' ts] r
    by (auto simp: tp split: prod.splits sum.splits)
qed

lemma Part_evaluate_ok:
  assumes "cache_ok p" "list_all Term_ok (part_terms q)"
  shows "fst (Part_evaluate q x p) = Inl ZeroDivisionError \<or> (\<exists>v. fst (Part_evaluate q x p) = Inr v)"
    and "0 < x \<Longrightarrow> \<exists>v. fst (Part_evaluate q x p) = Inr v"
  using Term_evaluate_all_ok [OF assms, of x]
  by (auto simp: Part_evaluate_def split: prod.splits sum.splits)

lemma Part_evaluate_all_ok:
  "cache_ok p \<Longrightarrow> list_all (\<lambda>q. list_all Term_ok (part_terms q)) qs \<Longrightarrow>
   (fst (Part_evaluate_all qs x p) = Inl ZeroDivisionError \<or>
    (\<exists>vs. fst (Part_evaluate_all qs x p) = Inr vs \<and> length vs = length qs)) \<and>
   (0 < x \<longrightarrow> (\<exists>vs. fst (Part_evaluate_all qs x p) = Inr vs \<and> length vs = length qs))"
proof (induction qs arbitrary: p)
  case Nil
  then show ?case by simp
next
  case (Cons u us)
  obtain r p' where tp: "Part_evaluate u x p = (r, p')" by (cases "Part_evaluate u x p")
  have p': "cache_ok p'"
    using Part_evaluate_snd [OF Cons.prems(1), of u x] by (simp add: tp)
  have u: "list_all Term_ok (part_terms u)"
    and us: "list_all (\<lambda>q. list_all Term_ok (part_terms q)) us"
    using Cons.prems(2) by simp_all
  have r: "r = Inl ZeroDivisionError \<or> (\<exists>v. r = Inr v)" "0 < x \<Longrightarrow> \<exists>v. r = Inr v"
    using Part_evaluate_ok [OF Cons.prems(1) u, of x] by (simp_all add: tp)
  show ?case
    using Cons.IH [OF p' us] r
    by (auto simp: tp split: prod.splits sum.splits)
qed

subsection \<open>Equal scale parameters\<close>

lemma mp_pow_cases: "mp_pow x k = Inl ZeroDivisionError \<or> (\<exists>v. mp_pow x k = Inr v)"
  by (simp add: mp_pow_def)

lemma mp_div_cases: "mp_div x y = Inl ZeroDivisionError \<or> (\<exists>v. mp_div x y = Inr v)"
  by (simp add: mp_div_def)

lemma bind_err_ZDE:
  assumes "r = Inl ZeroDivisionError \<or> (\<exists>v. r = Inr v)"
    and "\<And>v. r = Inr v \<Longrightarrow> f v = Inl ZeroDivisionError"
  shows "bind_err r f = Inl ZeroDivisionError"
  using assms by (auto simp: bind_err_def)

lemma amb_zero_fails:
  fixes n :: int
  shows "bind_err (mp_pow 0 (n - 2)) (\<lambda>d2.
         bind_err (mp_div c d2) (\<lambda>cm.
         bind_err (mp_pow apb (n - 1)) (\<lambda>d3.
         bind_err (mp_div s d3) (\<lambda>sp.
         bind_err (mp_pow 0 (n - 1)) (\<lambda>d4.
         bind_err (mp_div s' d4) (\<lambda>sm. G cm sp sm)))))) = Inl ZeroDivisionError"
proof -
  consider "n < 2" | "n = 2" | "2 < n" by linarith
  then show ?thesis
  proof cases
    case 1
    then show ?thesis by (simp add: mp_pow_def bind_err_def)
  next
    case 2
    then show ?thesis by (simp add: mp_pow_def mp_div_def bind_err_def)
  next
    case 3
    then have "0 < nat (n - 2)" by simp
    then show ?thesis using 3 by (simp add: mp_pow_def mp_div_def bind_err_def)
  qed
qed

lemma KnlInt_combine_equal:
  assumes "poly_a p = poly_b p"
  shows "KnlInt_combine k x p cs cd ss sd = Inl ZeroDivisionError"
proof -
  have amb: "poly_a p - poly_b p = 0" using assms by simp
  show ?thesis
    unfolding KnlInt_combine_def Let_def amb
    apply (rule bind_err_ZDE [OF mp_pow_cases])
    apply (rule bind_err_ZDE [OF mp_pow_cases])
    apply (rule bind_err_ZDE [OF mp_div_cases])
    apply (rule amb_zero_fails)
    done
qed

lemma KnlInt_evaluate_equal:
  assumes "cache_ok p" "KnlInt_ok k" "poly_a p = poly_b p"
  shows "fst (KnlInt_evaluate k x p) = Inl ZeroDivisionError"
proof -
  let ?r = "fst (Part_evaluate_all (knl_parts k) x p)"
  let ?p' = "snd (Part_evaluate_all (knl_parts k) x p)"
  have ok: "list_all (\<lambda>q. list_all Term_ok (part_terms q)) (knl_parts k)"
    and len: "length (knl_parts k) = 4"
    using assms(2) by (simp_all add: KnlInt_ok_def)
  have ab: "poly_a ?p' = poly_b ?p'"
    using Part_evaluate_all_snd [OF assms(1), of "knl_parts k" x] assms(3) by simp
  have "?r = Inl ZeroDivisionError \<or> (\<exists>vs. ?r = Inr vs \<and> length vs = 4)"
    using Part_evaluate_all_ok [OF assms(1) ok, of x] len by auto
  then show ?thesis
  proof
    assume "?r = Inl ZeroDivisionError"
    then show ?thesis by (simp add: KnlInt_evaluate_fst)
  next
    assume "\<exists>vs. ?r = Inr vs \<and> length vs = 4"
    then obtain vs where vs: "?r = Inr vs" "length vs = 4" by blast
    then obtain c1 c2 c3 c4 where "vs = [c1, c2, c3, c4]"
      by (auto simp: length_Suc_conv numeral_eq_Suc)
    then show ?thesis
      using vs(1) KnlInt_combine_equal [OF ab] by (simp add: KnlInt_evaluate_fst)
  qed
qed

text \<open>
  Claim C3.  For every entry of the table, every \<open>a\<close> and every pair of bounds, the definite
  integral with equal scale parameters \<open>a = b\<close> raises the division error
  (\<^verbatim>\<open>ZeroDivisionError\<close>, the specification's DegenerateInputs): no number is returned.
\<close>

theorem Compare_equal_scale:
  assumes "integrals (n, l) = Some k"
  shows "Compare x1 x2 n l a a = Inl ZeroDivisionError"
proof -
  have "fst (KnlInt_evaluate k x1 (Polynomial_init a a)) = Inl ZeroDivisionError"
    using cache_ok_init integrals_entry(1) [OF assms]
    by (rule KnlInt_evaluate_equal) (simp add: Polynomial_init_def)
  then show ?thesis
    using assms by (auto simp: Compare_def split: prod.splits sum.splits)
qed

theorem Compare_equal_scale_witness:
  "integrals (4, 0) = Some integrals_4_0 \<and> Compare 1 2 4 0 3 3 = Inl ZeroDivisionError"
proof -
  have k: "integrals (4, 0) = Some integrals_4_0"
    by (simp add: integrals_def integrals_items_def)
  from k Compare_equal_scale [OF k, of 1 2 3] show ?thesis by simp
qed

subsection \<open>The value of an expression\<close>

lemma Part_evaluate_all_values:
  "cache_ok p \<Longrightarrow> cache_ok p0 \<Longrightarrow> poly_a p = poly_a p0 \<Longrightarrow> poly_b p = poly_b p0 \<Longrightarrow>
   list_all2 (\<lambda>q v. fst (Part_evaluate q x p0) = Inr v) qs vs \<Longrightarrow>
   fst (Part_evaluate_all qs x p) = Inr vs"
proof (induction qs arbitrary: p vs)
  case Nil
  then show ?case by simp
next
  case (Cons u us)
  obtain v vs' where vs: "vs = v # vs'" and v: "fst (Part_evaluate u x p0) = Inr v"
    and rest: "list_all2 (\<lambda>q v. fst (Part_evaluate q x p0) = Inr v) us vs'"
    using Cons.prems(5) by (auto simp: list_all2_Cons1)
  obtain r p' where tp: "Part_evaluate u x p = (r, p')" by (cases "Part_evaluate u x p")
  have r: "r = Inr v"
    using Part_evaluate_indep [OF Cons.prems(1,2,3,4), of u x] v by (simp add: tp)
  have p': "cache_ok p'" "poly_a p' = poly_a p0" "poly_b p' = poly_b p0"
    using Part_evaluate_snd [OF Cons.prems(1), of u x] Cons.prems(3,4) by (simp_all add: tp)
  have "fst (Part_evaluate_all us x p') = Inr vs'"
    using p'(1) Cons.prems(2) p'(2,3) rest by (rule Cons.IH)
  then show ?case
    by (auto simp: tp r vs split: prod.splits sum.splits)
qed

lemma mp_div_value: "y \<noteq> 0 \<Longrightarrow> mp_div x y = Inr (x / y)"
  by (simp add: mp_div_def)

lemma mp_pow_nat: "0 \<le> k \<Longrightarrow> mp_pow x k = Inr (x ^ nat k)"
  by (simp add: mp_pow_def)

lemma KnlInt_combine_value:
  assumes "poly_a p \<noteq> poly_b p" "poly_a p + poly_b p \<noteq> 0" "poly_a p * poly_b p \<noteq> 0"
    and "2 \<le> knl_n k" "0 \<le> knl_l k"
  shows "KnlInt_combine k x p Sc Dc Ss Ds =
     (let \<alpha> = poly_a p + poly_b p;
          \<beta> = poly_a p - poly_b p;
          N = (1 / 4) / (poly_a p * poly_b p) ^ nat (knl_l k + 1);
          T1 = cos (\<alpha> * x) * (Sc + Dc) / \<alpha> ^ nat (knl_n k - 2);
          T2 = cos (\<beta> * x) * (Sc - Dc) / \<beta> ^ nat (knl_n k - 2);
          T3 = sin (\<alpha> * x) * (Ss + Ds) / \<alpha> ^ nat (knl_n k - 1);
          T4 = sin (\<beta> * x) * (Ss - Ds) / \<beta> ^ nat (knl_n k - 1)
      in if digits_less (prec_remaining [N * T1, N * T2, N * T3, N * T4]) 13
         then Inl NameError
         else Inr (N * T1 + N * T2 + N * T3 + N * T4))"
proof -
  have amb: "poly_a p - poly_b p \<noteq> 0" using assms(1) by simp
  have n: "0 \<le> knl_n k - 2" "0 \<le> knl_n k - 1" and l: "0 \<le> knl_l k + 1"
    using assms(4,5) by simp_all
  show ?thesis
    unfolding KnlInt_combine_def Let_def
    using amb assms(2,3)
    by (simp add: mp_pow_nat [OF n(1)] mp_pow_nat [OF n(2)] mp_pow_nat [OF l]
          mp_div_value bind_err_def mult.commute [of x])
qed

lemma KnlInt_evaluate_value:
  assumes "cache_ok p" and "knl_parts k = [csum, cdiff, ssum, sdiff]"
    and "fst (Part_evaluate csum x p) = Inr Sc" and "fst (Part_evaluate cdiff x p) = Inr Dc"
    and "fst (Part_evaluate ssum x p) = Inr Ss" and "fst (Part_evaluate sdiff x p) = Inr Ds"
    and "poly_a p \<noteq> poly_b p" and "poly_a p + poly_b p \<noteq> 0" and "poly_a p * poly_b p \<noteq> 0"
    and "2 \<le> knl_n k" and "0 \<le> knl_l k"
  shows "fst (KnlInt_evaluate k x p) =
     (let \<alpha> = poly_a p + poly_b p;
          \<beta> = poly_a p - poly_b p;
          N = (1 / 4) / (poly_a p * poly_b p) ^ nat (knl_l k + 1);
          T1 = cos (\<alpha> * x) * (Sc + Dc) / \<alpha> ^ nat (knl_n k - 2);
          T2 = cos (\<beta> * x) * (Sc - Dc) / \<beta> ^ nat (knl_n k - 2);
          T3 = sin (\<alpha> * x) * (Ss + Ds) / \<alpha> ^ nat (knl_n k - 1);
          T4 = sin (\<beta> * x) * (Ss - Ds) / \<beta> ^ nat (knl_n k - 1)
      in if digits_less (prec_remaining [N * T1, N * T2, N * T3, N * T4]) 13
         then Inl NameError
         else Inr (N * T1 + N * T2 + N * T3 + N * T4))"
proof -
  let ?p' = "snd (Part_evaluate_all (knl_parts k) x p)"
  have "list_all2 (\<lambda>q v. fst (Part_evaluate q x p) = Inr v)
          [csum, cdiff, ssum, sdiff] [Sc, Dc, Ss, Ds]"
    using assms(3-6) by simp
  then have vals: "fst (Part_evaluate_all (knl_parts k) x p) = Inr [Sc, Dc, Ss, Ds]"
    unfolding assms(2)
    using assms(1) by (intro Part_evaluate_all_values [where ?p0.0 = p]) simp_all
  have ab: "poly_a ?p' = poly_a p" "poly_b ?p' = poly_b p"
    using Part_evaluate_all_snd [OF assms(1), of "knl_parts k" x] by simp_all
  have "fst (KnlInt_evaluate k x p) = KnlInt_combine k x ?p' Sc Dc Ss Ds"
    by (simp add: KnlInt_evaluate_fst vals)
  also have "\<dots> = KnlInt_combine k x p Sc Dc Ss Ds"
    using ab by (rule KnlInt_combine_cong)
  finally show ?thesis
    using KnlInt_combine_value [OF assms(7-11), of x Sc Dc Ss Ds] by simp
qed

lemma integrals_entry_parts:
  assumes "integrals (n, l) = Some k" and "cache_ok p" and "0 < x"
  shows "\<exists>csum cdiff ssum sdiff Sc Dc Ss Ds.
     knl_parts k = [csum, cdiff, ssum, sdiff] \<and>
     fst (Part_evaluate csum x p) = Inr Sc \<and> fst (Part_evaluate cdiff x p) = Inr Dc \<and>
     fst (Part_evaluate ssum x p) = Inr Ss \<and> fst (Part_evaluate sdiff x p) = Inr Ds"
proof -
  have ok: "list_all (\<lambda>q. list_all Term_ok (part_terms q)) (knl_parts k)"
    and len: "length (knl_parts k) = 4"
    using integrals_entry(1) [OF assms(1)] by (simp_all add: KnlInt_ok_def)
  obtain csum cdiff ssum sdiff where parts: "knl_parts k = [csum, cdiff, ssum, sdiff]"
    using len by (auto simp: length_Suc_conv numeral_eq_Suc)
  have "\<exists>v. fst (Part_evaluate q x p) = Inr v" if "q \<in> set (knl_parts k)" for q
  proof -
    have "list_all Term_ok (part_terms q)" using ok that by (simp add: list_all_iff)
    then show ?thesis using assms(2,3) Part_evaluate_ok(2) by blast
  qed
  then show ?thesis unfolding parts by (simp; blast)
qed

text \<open>
  Claim C1.  For every entry \<open>(n, l)\<close> of the table, every context with \<open>a \<noteq> b\<close> and every
  \<open>x > 0\<close>, the four parts have values \<open>Sc\<close>, \<open>Dc\<close>, \<open>Ss\<close>, \<open>Ds\<close> at \<open>x\<close>, and when the precision
  check passes \<^verbatim>\<open>KnlInt.evaluate\<close> returns the sum of
  \<open>T1 = cos ((a + b) x) (Sc + Dc) / (a + b)\<^sup>n\<^sup>-\<^sup>2\<close>, \<open>T2 = cos ((a - b) x) (Sc - Dc) / (a - b)\<^sup>n\<^sup>-\<^sup>2\<close>,
  \<open>T3 = sin ((a + b) x) (Ss + Ds) / (a + b)\<^sup>n\<^sup>-\<^sup>1\<close> and \<open>T4 = sin ((a - b) x) (Ss - Ds) / (a - b)\<^sup>n\<^sup>-\<^sup>1\<close>,
  each multiplied by \<open>0.25 / (a b)\<^sup>l\<^sup>+\<^sup>1\<close>.  The check is reached when the divisors
  \<open>a + b\<close> and \<open>a b\<close> are not zero either.
\<close>

theorem KnlInt_evaluate_sum:
  assumes "integrals (n, l) = Some k" and "cache_ok p"
    and "poly_a p \<noteq> poly_b p" and "poly_a p + poly_b p \<noteq> 0" and "poly_a p * poly_b p \<noteq> 0"
    and "0 < x"
  shows "\<exists>csum cdiff ssum sdiff Sc Dc Ss Ds.
     knl_parts k = [csum, cdiff, ssum, sdiff] \<and>
     fst (Part_evaluate csum x p) = Inr Sc \<and> fst (Part_evaluate cdiff x p) = Inr Dc \<and>
     fst (Part_evaluate ssum x p) = Inr Ss \<and> fst (Part_evaluate sdiff x p) = Inr Ds \<and>
     (let \<alpha> = poly_a p + poly_b p;
          \<beta> = poly_a p - poly_b p;
          N = (1 / 4) / (poly_a p * poly_b p) ^ nat (l + 1);
          T1 = cos (\<alpha> * x) * (Sc + Dc) / \<alpha> ^ nat (n - 2);
          T2 = cos (\<beta> * x) * (Sc - Dc) / \<beta> ^ nat (n - 2);
          T3 = sin (\<alpha> * x) * (Ss + Ds) / \<alpha> ^ nat (n - 1);
          T4 = sin (\<beta> * x) * (Ss - Ds) / \<beta> ^ nat (n - 1)
      in \<not> digits_less (prec_remaining [N * T1, N * T2, N * T3, N * T4]) 13 \<longrightarrow>
         fst (KnlInt_evaluate k x p) = Inr (N * T1 + N * T2 + N * T3 + N * T4))"
proof -
  obtain csum cdiff ssum sdiff Sc Dc Ss Ds where
    parts: "knl_parts k = [csum, cdiff, ssum, sdiff]"
    and vals: "fst (Part_evaluate csum x p) = Inr Sc" "fst (Part_evaluate cdiff x p) = Inr Dc"
      "fst (Part_evaluate ssum x p) = Inr Ss" "fst (Part_evaluate sdiff x p) = Inr Ds"
    using integrals_entry_parts [OF assms(1,2,6)] by blast
  have nl: "knl_n k = n" "knl_l k = l" "2 \<le> knl_n k" "0 \<le> knl_l k"
    using integrals_entry [OF assms(1)] by auto
  have "fst (KnlInt_evaluate k x p) =
     (let \<alpha> = poly_a p + poly_b p;
          \<beta> = poly_a p - poly_b p;
          N = (1 / 4) / (poly_a p * poly_b p) ^ nat (l + 1);
          T1 = cos (\<alpha> * x) * (Sc + Dc) / \<alpha> ^ nat (n - 2);
          T2 = cos (\<beta> * x) * (Sc - Dc) / \<beta> ^ nat (n - 2);
          T3 = sin (\<alpha> * x) * (Ss + Ds) / \<alpha> ^ nat (n - 1);
          T4 = sin (\<beta> * x) * (Ss - Ds) / \<beta> ^ nat (n - 1)
      in if digits_less (prec_remaining [N * T1, N * T2, N * T3, N * T4]) 13
         then Inl NameError
         else Inr (N * T1 + N * T2 + N * T3 + N * T4))"
    using KnlInt_evaluate_value [OF assms(2) parts vals assms(3,4,5) nl(3,4)]
    unfolding nl(1,2) .
  then have "let \<alpha> = poly_a p + poly_b p;
          \<beta> = poly_a p - poly_b p;
          N = (1 / 4) / (poly_a p * poly_b p) ^ nat (l + 1);
          T1 = cos (\<alpha> * x) * (Sc + Dc) / \<alpha> ^ nat (n - 2);
          T2 = cos (\<beta> * x) * (Sc - Dc) / \<beta> ^ nat (n - 2);
          T3 = sin (\<alpha> * x) * (Ss + Ds) / \<alpha> ^ nat (n - 1);
          T4 = sin (\<beta> * x) * (Ss - Ds) / \<beta> ^ nat (n - 1)
      in \<not> digits_less (prec_remaining [N * T1, N * T2, N * T3, N * T4]) 13 \<longrightarrow>
         fst (KnlInt_evaluate k x p) = Inr (N * T1 + N * T2 + N * T3 + N * T4)"
    by (simp add: Let_def)
  with parts vals show ?thesis by blast
qed


subsection \<open>A worked evaluation: \<open>n = 4\<close>, \<open>l = 0\<close>, \<open>a = 2\<close>, \<open>b = 1\<close>\<close>

lemma integrals_4_0_lookup: "integrals (4, 0) = Some integrals_4_0"
  by (simp add: integrals_def integrals_items_def)

lemma parts_4_0:
  "knl_parts integrals_4_0 =
     [Part [], Part [Term (- 4) 1 0 [1]], Part [Term (- 4) 2 1 [1]],
      Part [Term 4 0 0 [1], Term (- 2) 2 0 [1, 1]]]"
  by (simp add: integrals_4_0_def KnlInt_def)

lemma nl_4_0: "knl_n integrals_4_0 = 4" "knl_l integrals_4_0 = 0"
  by (simp_all add: integrals_4_0_def KnlInt_def)

lemmas eval_defs =
  Part_evaluate_def Term_evaluate_def eval_poly_def get_list_def make_list_def
  Polynomial_init_def mp_power_def mp_pow_def

lemma vals_4_0:
  "fst (Part_evaluate (Part []) x (Polynomial_init 2 1)) = Inr 0"
  "fst (Part_evaluate (Part [Term (- 4) 1 0 [1]]) x (Polynomial_init 2 1)) = Inr (- 4 * x)"
  "fst (Part_evaluate (Part [Term (- 4) 2 1 [1]]) x (Polynomial_init 2 1)) = Inr (- 8 * x ^ 2)"
  "fst (Part_evaluate (Part [Term 4 0 0 [1], Term (- 2) 2 0 [1, 1]]) x (Polynomial_init 2 1))
     = Inr (4 - 10 * x ^ 2)"
  by (simp_all add: eval_defs numeral_2_eq_2)

lemma floor_log10_unit:
  assumes "1 \<le> y" "y < 10"
  shows "floor_log10 y = Fin 0"
proof -
  have "0 \<le> log 10 y" using assms by simp
  moreover have "log 10 y < 1" using assms by (simp add: log_less_iff)
  ultimately have "\<lfloor>log 10 y\<rfloor> = 0" by (simp add: floor_eq_iff)
  then show ?thesis using assms by (simp add: floor_log10_def)
qed

lemma prec_remaining_unit:
  assumes "1 \<le> \<bar>t1\<bar> + \<bar>t2\<bar>" "\<bar>t1\<bar> + \<bar>t2\<bar> < 10" "1 \<le> \<bar>t1 + t2\<bar>"
  shows "prec_remaining [t1, t2, 0, 0] = Fin 200"
proof -
  have "\<bar>t1 + t2\<bar> < 10" using assms(2) by linarith
  then have "floor_log10 \<bar>t1 + t2\<bar> = Fin 0" using assms(3) by (intro floor_log10_unit)
  moreover have "floor_log10 (\<bar>t1\<bar> + \<bar>t2\<bar>) = Fin 0" using assms(1,2) by (intro floor_log10_unit)
  ultimately show ?thesis by (simp add: prec_remaining_def mp_dps_def)
qed

lemma evaluate_4_0:
  assumes trig: "cos (3 * x) = 1" "cos x = 1" "sin (3 * x) = 0" "sin x = 0"
    and x: "9 / 4 \<le> x" "x < 18"
  shows "prec_remaining [- (x / 18), x / 2, 0, 0] = Fin 200"
    and "fst (KnlInt_evaluate integrals_4_0 x (Polynomial_init 2 1)) = Inr (4 * x / 9)"
proof -
  show prec: "prec_remaining [- (x / 18), x / 2, 0, 0] = Fin 200"
    using x by (intro prec_remaining_unit) (simp_all add: abs_if)
  have "fst (KnlInt_evaluate integrals_4_0 x (Polynomial_init 2 1)) =
     (let \<alpha> = poly_a (Polynomial_init 2 1) + poly_b (Polynomial_init 2 1);
          \<beta> = poly_a (Polynomial_init 2 1) - poly_b (Polynomial_init 2 1);
          N = (1 / 4) / (poly_a (Polynomial_init 2 1) * poly_b (Polynomial_init 2 1)) ^ nat (knl_l integrals_4_0 + 1);
          T1 = cos (\<alpha> * x) * (0 + (- 4 * x)) / \<alpha> ^ nat (knl_n integrals_4_0 - 2);
          T2 = cos (\<beta> * x) * (0 - (- 4 * x)) / \<beta> ^ nat (knl_n integrals_4_0 - 2);
          T3 = sin (\<alpha> * x) * (- 8 * x ^ 2 + (4 - 10 * x ^ 2)) / \<alpha> ^ nat (knl_n integrals_4_0 - 1);
          T4 = sin (\<beta> * x) * (- 8 * x ^ 2 - (4 - 10 * x ^ 2)) / \<beta> ^ nat (knl_n integrals_4_0 - 1)
      in if digits_less (prec_remaining [N * T1, N * T2, N * T3, N * T4]) 13
         then Inl NameError
         else Inr (N * T1 + N * T2 + N * T3 + N * T4))"
    by (rule KnlInt_evaluate_value [OF cache_ok_init parts_4_0 vals_4_0])
       (simp_all add: Polynomial_init_def nl_4_0)
  then show "fst (KnlInt_evaluate integrals_4_0 x (Polynomial_init 2 1)) = Inr (4 * x / 9)"
    by (simp add: Let_def nl_4_0 Polynomial_init_def trig prec)
qed

lemma trig_2pi:
  "cos (3 * (2 * pi)) = 1" "cos (2 * pi) = 1" "sin (3 * (2 * pi)) = 0" "sin (2 * pi) = 0"
  using cos_npi [of 6] sin_npi [of 6] by simp_all

lemma trig_4pi:
  "cos (3 * (4 * pi)) = 1" "cos (4 * pi) = 1" "sin (3 * (4 * pi)) = 0" "sin (4 * pi) = 0"
  using cos_npi [of 12] sin_npi [of 12] cos_npi [of 4] sin_npi [of 4] by simp_all

lemma bounds_2pi: "9 / 4 \<le> 2 * pi" "2 * pi < 18"
  using pi_ge_two pi_less_4 by simp_all

lemma bounds_4pi: "9 / 4 \<le> 4 * pi" "4 * pi < 18"
  using pi_ge_two pi_less_4 by simp_all

lemmas evaluate_4_0_2pi = evaluate_4_0 [OF trig_2pi bounds_2pi]
lemmas evaluate_4_0_4pi = evaluate_4_0 [OF trig_4pi bounds_4pi]

theorem KnlInt_evaluate_sum_witness:
  "integrals (4, 0) = Some integrals_4_0 \<and> cache_ok (Polynomial_init 2 1) \<and>
   poly_a (Polynomial_init 2 1) \<noteq> poly_b (Polynomial_init 2 1) \<and>
   poly_a (Polynomial_init 2 1) + poly_b (Polynomial_init 2 1) \<noteq> 0 \<and>
   poly_a (Polynomial_init 2 1) * poly_b (Polynomial_init 2 1) \<noteq> 0 \<and>
   0 < 2 * pi \<and>
   \<not> digits_less (prec_remaining [- (2 * pi / 18), 2 * pi / 2, 0, 0]) 13 \<and>
   fst (KnlInt_evaluate integrals_4_0 (2 * pi) (Polynomial_init 2 1)) = Inr (4 * (2 * pi) / 9)"
proof -
  let ?p = "Polynomial_init 2 1"
  have ok: "cache_ok ?p" by (rule cache_ok_init)
  have ne: "poly_a ?p \<noteq> poly_b ?p" "poly_a ?p + poly_b ?p \<noteq> 0" "poly_a ?p * poly_b ?p \<noteq> 0"
    by (simp_all add: Polynomial_init_def)
  have x: "0 < 2 * pi" by simp
  have prec: "\<not> digits_less (prec_remaining [- (2 * pi / 18), 2 * pi / 2, 0, 0]) 13"
    by (simp only: evaluate_4_0_2pi(1)) simp
  obtain csum cdiff ssum sdiff Sc Dc Ss Ds where
    parts: "knl_parts integrals_4_0 = [csum, cdiff, ssum, sdiff]"
    and vals: "fst (Part_evaluate csum (2 * pi) ?p) = Inr Sc"
      "fst (Part_evaluate cdiff (2 * pi) ?p) = Inr Dc"
      "fst (Part_evaluate ssum (2 * pi) ?p) = Inr Ss"
      "fst (Part_evaluate sdiff (2 * pi) ?p) = Inr Ds"
    and sum: "let \<alpha> = poly_a ?p + poly_b ?p;
          \<beta> = poly_a ?p - poly_b ?p;
          N = (1 / 4) / (poly_a ?p * poly_b ?p) ^ nat (0 + 1);
          T1 = cos (\<alpha> * (2 * pi)) * (Sc + Dc) / \<alpha> ^ nat (4 - 2);
          T2 = cos (\<beta> * (2 * pi)) * (Sc - Dc) / \<beta> ^ nat (4 - 2);
          T3 = sin (\<alpha> * (2 * pi)) * (Ss + Ds) / \<alpha> ^ nat (4 - 1);
          T4 = sin (\<beta> * (2 * pi)) * (Ss - Ds) / \<beta> ^ nat (4 - 1)
      in \<not> digits_less (prec_remaining [N * T1, N * T2, N * T3, N * T4]) 13 \<longrightarrow>
         fst (KnlInt_evaluate integrals_4_0 (2 * pi) ?p) = Inr (N * T1 + N * T2 + N * T3 + N * T4)"
    using KnlInt_evaluate_sum [OF integrals_4_0_lookup ok ne x] by blast
  have ps: "csum = Part []" "cdiff = Part [Term (- 4) 1 0 [1]]" "ssum = Part [Term (- 4) 2 1 [1]]"
    "sdiff = Part [Term 4 0 0 [1], Term (- 2) 2 0 [1, 1]]"
    using parts unfolding parts_4_0 by simp_all
  have vs: "Sc = 0" "Dc = - 4 * (2 * pi)" "Ss = - 8 * (2 * pi) ^ 2" "Ds = 4 - 10 * (2 * pi) ^ 2"
    using vals unfolding ps vals_4_0 by simp_all
  have "fst (KnlInt_evaluate integrals_4_0 (2 * pi) ?p) = Inr (4 * (2 * pi) / 9)"
    using sum prec unfolding vs
    by (simp add: Let_def Polynomial_init_def trig_2pi)
  with integrals_4_0_lookup ok ne x prec show ?thesis by blast
qed

subsection \<open>The definite integral\<close>

text \<open>
  Claim C5.  For every entry \<open>(n, l)\<close> of the table, every context \<open>(a, b)\<close> and bounds at
  which the expression has the values \<open>F(x1)\<close> and \<open>F(x2)\<close>, \<^verbatim>\<open>Compare\<close> computes
  \<open>F(x2) - F(x1)\<close>; the second evaluation runs on the context the first one leaves (one
  shared context for \<open>(a, b)\<close>) and returns what a fresh context returns.
\<close>

theorem Compare_difference:
  assumes "integrals (n, l) = Some k"
    and "fst (KnlInt_evaluate k x1 (Polynomial_init a b)) = Inr F1"
    and "fst (KnlInt_evaluate k x2 (Polynomial_init a b)) = Inr F2"
  shows "Compare x1 x2 n l a b = Inr (F2 - F1) \<and>
         fst (KnlInt_evaluate k x2 (snd (KnlInt_evaluate k x1 (Polynomial_init a b)))) = Inr F2"
proof -
  let ?p = "Polynomial_init a b"
  let ?p1 = "snd (KnlInt_evaluate k x1 ?p)"
  have ok: "cache_ok ?p" by (rule cache_ok_init)
  have p1: "cache_ok ?p1" "poly_a ?p1 = poly_a ?p" "poly_b ?p1 = poly_b ?p"
    using KnlInt_evaluate_snd [OF ok, of k x1] by simp_all
  have second: "fst (KnlInt_evaluate k x2 ?p1) = Inr F2"
    using KnlInt_evaluate_indep [OF p1(1) ok p1(2,3), of k x2] assms(3) by simp
  obtain q1 where e1: "KnlInt_evaluate k x1 ?p = (Inr F1, q1)"
    using assms(2) by (cases "KnlInt_evaluate k x1 ?p") simp
  obtain q2 where e2: "KnlInt_evaluate k x2 q1 = (Inr F2, q2)"
    using second unfolding e1 by (cases "KnlInt_evaluate k x2 q1") simp
  have "Compare x1 x2 n l a b = Inr (F2 - F1)"
    by (simp add: Compare_def assms(1) e1 e2)
  with second show ?thesis by simp
qed

theorem Compare_difference_witness:
  "integrals (4, 0) = Some integrals_4_0 \<and>
   fst (KnlInt_evaluate integrals_4_0 (2 * pi) (Polynomial_init 2 1)) = Inr (4 * (2 * pi) / 9) \<and>
   fst (KnlInt_evaluate integrals_4_0 (4 * pi) (Polynomial_init 2 1)) = Inr (4 * (4 * pi) / 9) \<and>
   Compare (2 * pi) (4 * pi) 4 0 2 1 = Inr (4 * (4 * pi) / 9 - 4 * (2 * pi) / 9)"
  using Compare_difference [OF integrals_4_0_lookup evaluate_4_0_2pi(2) evaluate_4_0_4pi(2)]
    integrals_4_0_lookup evaluate_4_0_2pi(2) evaluate_4_0_4pi(2)
  by blast

subsection \<open>The exceptions an evaluation can raise\<close>

lemma get_list_error: "fst (get_list p n) = Inl e \<Longrightarrow> e = IndexError"
  by (auto simp: get_list_def make_list_def Let_def split: option.splits if_splits sum.splits)

lemma eval_poly_error: "fst (eval_poly p coeff) = Inl e \<Longrightarrow> e = IndexError"
  using get_list_error [of p "length coeff" e]
  by (auto simp: eval_poly_def split: prod.splits sum.splits)

lemma mp_pow_error: "mp_pow x k = Inl e \<Longrightarrow> e = ZeroDivisionError"
  by (auto simp: mp_pow_def split: if_splits)

lemma mp_power_error: "mp_power x y = Inl e \<Longrightarrow> e = ZeroDivisionError \<or> e = NotReal"
  by (auto simp: mp_power_def dest: mp_pow_error split: if_splits)

lemma mp_div_error: "mp_div x y = Inl e \<Longrightarrow> e = ZeroDivisionError"
  by (auto simp: mp_div_def split: if_splits)

lemma bind_err_Inl:
  "bind_err r f = Inl e \<Longrightarrow> r = Inl e \<or> (\<exists>v. r = Inr v \<and> f v = Inl e)"
  by (cases r) (auto simp: bind_err_def)

lemma Term_evaluate_error:
  assumes "fst (Term_evaluate t x p) = Inl e"
  shows "e = IndexError \<or> e = ZeroDivisionError \<or> e = NotReal"
  using assms unfolding Term_evaluate_fst
  by (auto dest!: bind_err_Inl dest: mp_power_error eval_poly_error split: if_splits)

lemma Term_evaluate_all_error:
  "fst (Term_evaluate_all ts x p) = Inl e \<Longrightarrow>
   e = IndexError \<or> e = ZeroDivisionError \<or> e = NotReal"
proof (induction ts arbitrary: p)
  case Nil
  then show ?case by simp
next
  case (Cons t ts)
  obtain r p' where tp: "Term_evaluate t x p = (r, p')" by (cases "Term_evaluate t x p")
  show ?case
    using Cons.prems Cons.IH [of p'] Term_evaluate_error [of t x p e]
    by (auto simp: tp split: prod.splits sum.splits)
qed

lemma Part_evaluate_error:
  "fst (Part_evaluate q x p) = Inl e \<Longrightarrow>
   e = IndexError \<or> e = ZeroDivisionError \<or> e = NotReal"
  using Term_evaluate_all_error [of "part_terms q" x p e]
  by (auto simp: Part_evaluate_def split: prod.splits sum.splits)

lemma Part_evaluate_all_error:
  "fst (Part_evaluate_all qs x p) = Inl e \<Longrightarrow>
   e = IndexError \<or> e = ZeroDivisionError \<or> e = NotReal"
proof (induction qs arbitrary: p)
  case Nil
  then show ?case by simp
next
  case (Cons u us)
  obtain r p' where tp: "Part_evaluate u x p = (r, p')" by (cases "Part_evaluate u x p")
  show ?case
    using Cons.prems Cons.IH [of p'] Part_evaluate_error [of u x p e]
    by (auto simp: tp split: prod.splits sum.splits)
qed

lemma KnlInt_combine_error:
  assumes "KnlInt_combine k x p cs cd ss sd = Inl e"
  shows "e = ZeroDivisionError \<or> e = NameError"
  using assms unfolding KnlInt_combine_def Let_def
  by (auto dest!: bind_err_Inl dest: mp_pow_error mp_div_error split: if_splits)

lemma KnlInt_evaluate_error:
  assumes "fst (KnlInt_evaluate k x p) = Inl e"
  shows "e = IndexError \<or> e = ZeroDivisionError \<or> e = NotReal \<or> e = ValueError \<or>
         e = NameError"
proof (cases "fst (Part_evaluate_all (knl_parts k) x p)")
  case (Inl e')
  then show ?thesis
    using assms Part_evaluate_all_error [of "knl_parts k" x p e']
    by (auto simp: KnlInt_evaluate_fst)
next
  case (Inr vals)
  show ?thesis
  proof (cases "\<exists>c1 c2 c3 c4. vals = [c1, c2, c3, c4]")
    case True
    then obtain c1 c2 c3 c4 where "vals = [c1, c2, c3, c4]" by blast
    then have "KnlInt_combine k x (snd (Part_evaluate_all (knl_parts k) x p)) c1 c2 c3 c4 = Inl e"
      using assms Inr by (simp add: KnlInt_evaluate_fst)
    then show ?thesis using KnlInt_combine_error by blast
  next
    case False
    then have "fst (KnlInt_evaluate k x p) = Inl ValueError"
      using Inr by (auto simp: KnlInt_evaluate_fst split: list.splits)
    then show ?thesis using assms by simp
  qed
qed

lemma KnlInt_evaluate_no_exit: "fst (KnlInt_evaluate k x p) \<noteq> Inl (SystemExit msg)"
  using KnlInt_evaluate_error [of k x p "SystemExit msg"] by auto

subsection \<open>Loss of precision\<close>


lemma sin_taylor5:
  fixes t :: real
  shows "\<bar>sin t - (t - t ^ 3 / 6)\<bar> \<le> \<bar>t\<bar> ^ 5 / 120"
proof -
  have "(\<Sum>m<5. f m) = f 0 + f 1 + f 2 + f 3 + f 4" for f :: "nat \<Rightarrow> real"
    by (simp add: eval_nat_numeral)
  then have sum: "(\<Sum>m<5. sin_coeff m * t ^ m) = t - t ^ 3 / 6"
    by (simp add: sin_coeff_def fact_numeral)
  have fact5: "inverse (fact 5 :: real) = 1 / 120"
    by (simp add: fact_numeral)
  show ?thesis
    using Maclaurin_sin_bound [of t 5] unfolding sum fact5 by simp
qed

lemma cos_taylor4:
  fixes t :: real
  shows "\<bar>cos t - (1 - t ^ 2 / 2)\<bar> \<le> t ^ 4 / 24"
proof -
  obtain s where s: "cos t = (\<Sum>m<4. cos_coeff m * t ^ m) + (cos (s + 1/2 * real (4::nat) * pi) / fact 4) * t ^ 4"
    using Maclaurin_cos_expansion [of t 4] by blast
  have "(\<Sum>m<4. f m) = f 0 + f 1 + f 2 + f 3" for f :: "nat \<Rightarrow> real"
    by (simp add: eval_nat_numeral)
  then have sum: "(\<Sum>m<4. cos_coeff m * t ^ m) = 1 - t ^ 2 / 2"
    by (simp add: cos_coeff_def fact_numeral)
  define c where "c = cos (s + 1/2 * real (4::nat) * pi)"
  define r where "r = t ^ 4 / 24"
  have r: "0 \<le> r" by (simp add: r_def)
  have "cos t - (1 - t ^ 2 / 2) = c * r"
    unfolding s sum c_def r_def by (simp add: fact_numeral)
  then have "\<bar>cos t - (1 - t ^ 2 / 2)\<bar> = \<bar>c\<bar> * r"
    using r by (simp add: abs_mult)
  also have "\<dots> \<le> 1 * r"
    using r by (intro mult_right_mono) (simp_all add: c_def)
  finally show ?thesis by (simp add: r_def)
qed

lemma cancel_bound:
  fixes t :: real
  assumes "0 < t" "t \<le> 1"
  shows "\<bar>(sin t * (4 - 2 * t ^ 2) - 4 * t * cos t) / t ^ 3 + 2 / 3\<bar> \<le> 8 / 15 * t ^ 2"
proof -
  define s where "s = sin t - (t - t ^ 3 / 6)"
  define c where "c = cos t - (1 - t ^ 2 / 2)"
  define R where "R = t ^ 5 / 3 + s * (4 - 2 * t ^ 2) - 4 * t * c"
  have s: "\<bar>s\<bar> \<le> t ^ 5 / 120"
    using sin_taylor5 [of t] assms(1) by (simp add: s_def)
  have c: "\<bar>c\<bar> \<le> t ^ 4 / 24"
    using cos_taylor4 [of t] by (simp add: c_def)
  have t2: "0 \<le> t ^ 2" "t ^ 2 \<le> 1"
    using assms by (simp_all add: power_le_one)
  have num: "sin t * (4 - 2 * t ^ 2) - 4 * t * cos t + 2 / 3 * t ^ 3 = R"
    unfolding R_def s_def c_def by (simp add: algebra_simps eval_nat_numeral)
  have "\<bar>s * (4 - 2 * t ^ 2)\<bar> = \<bar>s\<bar> * (4 - 2 * t ^ 2)"
    using t2 by (simp add: abs_mult)
  also have "\<dots> \<le> t ^ 5 / 120 * 4"
    using s t2 assms(1) by (intro mult_mono) simp_all
  finally have b1: "\<bar>s * (4 - 2 * t ^ 2)\<bar> \<le> t ^ 5 / 30" by simp
  have "\<bar>4 * t * c\<bar> = 4 * t * \<bar>c\<bar>"
    using assms(1) by (simp add: abs_mult)
  also have "\<dots> \<le> 4 * t * (t ^ 4 / 24)"
    using c assms(1) by (intro mult_left_mono) simp_all
  finally have b2: "\<bar>4 * t * c\<bar> \<le> t ^ 5 / 6" by (simp add: eval_nat_numeral)
  have t5: "0 \<le> t ^ 5" using assms(1) by simp
  have "\<bar>R\<bar> \<le> t ^ 5 / 3 + \<bar>s * (4 - 2 * t ^ 2)\<bar> + \<bar>4 * t * c\<bar>"
    unfolding R_def using t5 by linarith
  then have R: "\<bar>R\<bar> \<le> 8 / 15 * t ^ 5" using b1 b2 by linarith
  have t3: "0 < t ^ 3" using assms(1) by simp
  have "(sin t * (4 - 2 * t ^ 2) - 4 * t * cos t) / t ^ 3 + 2 / 3 = R / t ^ 3"
    unfolding num [symmetric] using t3 by (simp add: field_simps)
  then have "\<bar>(sin t * (4 - 2 * t ^ 2) - 4 * t * cos t) / t ^ 3 + 2 / 3\<bar> = \<bar>R\<bar> / t ^ 3"
    using t3 by simp
  also have "\<dots> \<le> (8 / 15 * t ^ 5) / t ^ 3"
    using R t3 by (intro divide_right_mono) simp_all
  also have "\<dots> = 8 / 15 * t ^ 2"
    using assms(1) by (simp add: eval_nat_numeral)
  finally show ?thesis .
qed

lemma vals_4_0_general:
  "fst (Part_evaluate (Part []) x (Polynomial_init a b)) = Inr 0"
  "fst (Part_evaluate (Part [Term (- 4) 1 0 [1]]) x (Polynomial_init a b)) = Inr (- 4 * x)"
  "fst (Part_evaluate (Part [Term (- 4) 2 1 [1]]) x (Polynomial_init a b)) = Inr (- 4 * x ^ 2 * (a * b))"
  "fst (Part_evaluate (Part [Term 4 0 0 [1], Term (- 2) 2 0 [1, 1]]) x (Polynomial_init a b))
     = Inr (4 - 2 * x ^ 2 * (a * a + b * b))"
  by (simp_all add: eval_defs numeral_2_eq_2)

lemma floor_log10_large:
  assumes "10 ^ 199 \<le> y"
  shows "\<exists>m. floor_log10 y = Fin m \<and> 199 \<le> m"
proof -
  have y: "0 < y" using assms by (rule less_le_trans [rotated]) simp
  have "(10::real) powr 199 \<le> y" using assms by simp
  then have "199 \<le> log 10 y" using y by (simp add: le_log_iff)
  then have "199 \<le> \<lfloor>log 10 y\<rfloor>" by (simp add: le_floor_iff)
  then show ?thesis using y by (simp add: floor_log10_def)
qed

lemma floor_log10_small:
  assumes "0 \<le> y" "y < 1"
  shows "floor_log10 y = NegInf \<or> (\<exists>r. floor_log10 y = Fin r \<and> r \<le> - 1)"
proof (cases "y = 0")
  case True
  then show ?thesis by (simp add: floor_log10_def)
next
  case False
  then have y: "0 < y" using assms(1) by simp
  have "log 10 y < 0" using y assms(2) by simp
  then have "\<lfloor>log 10 y\<rfloor> \<le> - 1" by (simp add: floor_le_iff)
  then show ?thesis using False unfolding floor_log10_def by auto
qed

lemma prec_remaining_low:
  assumes "10 ^ 199 \<le> \<bar>t2\<bar>" and "\<bar>t1 + t2 + t3 + t4\<bar> < 1"
  shows "digits_less (prec_remaining [t1, t2, t3, t4]) 13"
proof -
  have "10 ^ 199 \<le> \<bar>t1\<bar> + \<bar>t2\<bar> + \<bar>t3\<bar> + \<bar>t4\<bar>"
    using assms(1) by linarith
  then obtain m where m: "floor_log10 (\<bar>t1\<bar> + \<bar>t2\<bar> + \<bar>t3\<bar> + \<bar>t4\<bar>) = Fin m" "199 \<le> m"
    using floor_log10_large by blast
  have "floor_log10 \<bar>t1 + t2 + t3 + t4\<bar> = NegInf \<or>
        (\<exists>r. floor_log10 \<bar>t1 + t2 + t3 + t4\<bar> = Fin r \<and> r \<le> - 1)"
    using assms(2) by (intro floor_log10_small) simp_all
  then show ?thesis
    using m by (auto simp: prec_remaining_def mp_dps_def add.assoc)
qed

lemma evaluate_4_0_small:
  fixes e :: real
  assumes "0 < e" "e \<le> 1 / 3" "10 ^ 199 * (4 * e ^ 4) \<le> 1"
  shows "fst (KnlInt_evaluate integrals_4_0 1 (Polynomial_init (2 * e) e)) = Inl NameError"
proof -
  let ?p = "Polynomial_init (2 * e) e"
  define N where "N = 1 / (8 * e ^ 2)"
  define t1 where "t1 = N * (cos (3 * e) * (- 4) / (3 * e) ^ 2)"
  define t2 where "t2 = N * (cos e * 4 / e ^ 2)"
  define t3 where "t3 = N * (sin (3 * e) * (4 - 18 * e ^ 2) / (3 * e) ^ 3)"
  define t4 where "t4 = N * (sin e * (2 * e ^ 2 - 4) / e ^ 3)"
  define G where "G = (\<lambda>t::real. (sin t * (4 - 2 * t ^ 2) - 4 * t * cos t) / t ^ 3)"
  have "fst (KnlInt_evaluate integrals_4_0 1 ?p) =
     (let \<alpha> = poly_a ?p + poly_b ?p;
          \<beta> = poly_a ?p - poly_b ?p;
          N = (1 / 4) / (poly_a ?p * poly_b ?p) ^ nat (knl_l integrals_4_0 + 1);
          T1 = cos (\<alpha> * 1) * (0 + (- 4 * 1)) / \<alpha> ^ nat (knl_n integrals_4_0 - 2);
          T2 = cos (\<beta> * 1) * (0 - (- 4 * 1)) / \<beta> ^ nat (knl_n integrals_4_0 - 2);
          T3 = sin (\<alpha> * 1) * (- 4 * 1 ^ 2 * (2 * e * e) + (4 - 2 * 1 ^ 2 * (2 * e * (2 * e) + e * e))) / \<alpha> ^ nat (knl_n integrals_4_0 - 1);
          T4 = sin (\<beta> * 1) * (- 4 * 1 ^ 2 * (2 * e * e) - (4 - 2 * 1 ^ 2 * (2 * e * (2 * e) + e * e))) / \<beta> ^ nat (knl_n integrals_4_0 - 1)
      in if digits_less (prec_remaining [N * T1, N * T2, N * T3, N * T4]) 13
         then Inl NameError
         else Inr (N * T1 + N * T2 + N * T3 + N * T4))"
    using assms(1)
    by (intro KnlInt_evaluate_value [OF cache_ok_init parts_4_0 vals_4_0_general])
       (simp_all add: Polynomial_init_def nl_4_0)
  then have val: "fst (KnlInt_evaluate integrals_4_0 1 ?p) =
      (if digits_less (prec_remaining [t1, t2, t3, t4]) 13 then Inl NameError
       else Inr (t1 + t2 + t3 + t4))"
    by (simp add: Let_def nl_4_0 Polynomial_init_def t1_def t2_def t3_def t4_def N_def
          power2_eq_square)
  have e2: "0 < e ^ 2" and e4: "0 < e ^ 4" using assms(1) by simp_all
  have cos_e: "1 / 2 \<le> cos e"
  proof -
    have "\<bar>cos e - (1 - e ^ 2 / 2)\<bar> \<le> e ^ 4 / 24" by (rule cos_taylor4)
    then have "1 - e ^ 2 / 2 - e ^ 4 / 24 \<le> cos e" by linarith
    moreover have "e ^ 2 \<le> (1 / 3) ^ 2" "e ^ 4 \<le> (1 / 3) ^ 4"
      using assms(1,2) by (simp_all add: power_mono)
    then have "e ^ 2 \<le> 1 / 9" "e ^ 4 \<le> 1 / 81" by (simp_all add: power_divide)
    ultimately show ?thesis by linarith
  qed
  have "t2 = cos e / (2 * e ^ 4)"
    unfolding t2_def N_def using assms(1) by (simp add: field_simps eval_nat_numeral)
  moreover have "1 / (4 * e ^ 4) \<le> cos e / (2 * e ^ 4)"
    using cos_e e4 by (simp add: field_simps)
  moreover have "10 ^ 199 \<le> 1 / (4 * e ^ 4)"
    using assms(3) e4 by (simp add: field_simps)
  ultimately have big: "10 ^ 199 \<le> \<bar>t2\<bar>" by linarith
  have sum: "t1 + t2 + t3 + t4 = N * (G (3 * e) - G e)"
    unfolding t1_def t2_def t3_def t4_def G_def using assms(1)
    by (simp add: field_simps eval_nat_numeral)
  have G3: "\<bar>G (3 * e) + 2 / 3\<bar> \<le> 8 / 15 * (3 * e) ^ 2"
    unfolding G_def using assms(1,2) by (intro cancel_bound) simp_all
  have G1: "\<bar>G e + 2 / 3\<bar> \<le> 8 / 15 * e ^ 2"
    unfolding G_def using assms(1,2) by (intro cancel_bound) simp_all
  have "\<bar>G (3 * e) - G e\<bar> \<le> 8 / 15 * (3 * e) ^ 2 + 8 / 15 * e ^ 2"
    using G3 G1 by linarith
  also have "\<dots> = 16 / 3 * e ^ 2" by (simp add: power_mult_distrib)
  finally have diff: "\<bar>G (3 * e) - G e\<bar> \<le> 16 / 3 * e ^ 2" .
  have N: "0 < N" using e2 by (simp add: N_def)
  have "\<bar>t1 + t2 + t3 + t4\<bar> = N * \<bar>G (3 * e) - G e\<bar>"
    unfolding sum using N by (simp add: abs_mult)
  also have "\<dots> \<le> N * (16 / 3 * e ^ 2)"
    using diff N by (intro mult_left_mono) simp_all
  also have "\<dots> = 2 / 3" using e2 by (simp add: N_def)
  finally have small: "\<bar>t1 + t2 + t3 + t4\<bar> < 1" by simp
  show ?thesis
    unfolding val using prec_remaining_low [OF big small] by simp
qed

text \<open>
  Claim C2.  When the remaining precision falls below 13 digits the evaluation is meant to
  abort with \<^verbatim>\<open>sys.exit("Insufficient precision")\<close>.  At \<open>n = 4\<close>, \<open>l = 0\<close>, \<open>a = 2e-50\<close>,
  \<open>b = 1e-50\<close>, \<open>x = 1\<close> the four terms are of the order of \<open>10\<^sup>1\<^sup>9\<^sup>9\<close> while their sum is below 1
  in absolute value, so at most one digit remains and the branch is taken; since the module
  never imports \<^verbatim>\<open>sys\<close>, what the caller receives is \<^verbatim>\<open>NameError\<close>, not the exit with the
  message "Insufficient precision" (no evaluation ends in \<^verbatim>\<open>SystemExit\<close>, lemma
  \<open>KnlInt_evaluate_no_exit\<close>).  No number is returned.
\<close>

theorem KnlInt_evaluate_low_precision:
  "fst (KnlInt_evaluate integrals_4_0 1 (Polynomial_init (2 / 10 ^ 50) (1 / 10 ^ 50)))
     = Inl NameError"
proof -
  have "fst (KnlInt_evaluate integrals_4_0 1 (Polynomial_init (2 * (1 / 10 ^ 50)) (1 / 10 ^ 50)))
     = Inl NameError"
    by (rule evaluate_4_0_small) (simp_all add: power_divide)
  then show ?thesis by simp
qed

end
